theory Spec2Isabelle
  imports Complex_Main "HOL-Library.Sublist"
begin

section \<open>Exceptions\<close>

text \<open>
  The exceptions of \<^verbatim>\<open>madminer/tools/utils.py\<close> and of the library calls it makes, as
  values. Each carries its message. \<open>FileExistsError\<close>, \<open>FileNotFoundError\<close> and
  \<open>NotADirectoryError\<close> are the subclasses of \<open>OSError\<close> that \<^verbatim>\<open>os.mkdir\<close> raises.
\<close>

datatype error =
    RuntimeError string
  | OSError string
  | FileExistsError string
  | FileNotFoundError string
  | NotADirectoryError string
  | ValueError string
  | TypeError string
  | OverflowError string

fun is_OSError :: "error \<Rightarrow> bool" where
  "is_OSError (OSError m) = True"
| "is_OSError (FileExistsError m) = True"
| "is_OSError (FileNotFoundError m) = True"
| "is_OSError (NotADirectoryError m) = True"
| "is_OSError e = False"

fun message :: "error \<Rightarrow> string" where
  "message (RuntimeError m) = m"
| "message (OSError m) = m"
| "message (FileExistsError m) = m"
| "message (FileNotFoundError m) = m"
| "message (NotADirectoryError m) = m"
| "message (ValueError m) = m"
| "message (TypeError m) = m"
| "message (OverflowError m) = m"

section \<open>Floating-point numbers\<close>

text \<open>
  A Python float is an IEEE 754 double: a finite number, given by the rational number it
  denotes exactly, or negative zero, an infinity or NaN. \<open>Finite 0\<close> is positive zero.
\<close>

datatype pyfloat = Finite rat | NegZero | PosInf | NegInf | NaN

fun is_finite :: "pyfloat \<Rightarrow> bool" where
  "is_finite (Finite r) = True"
| "is_finite NegZero = True"
| "is_finite f = False"

fun float_value :: "pyfloat \<Rightarrow> rat" where
  "float_value (Finite r) = r"
| "float_value f = 0"

text \<open>
  The comparison \<^verbatim>\<open>a < b\<close> of two floats: false when one of them is NaN, and the two zeros
  are equal.
\<close>

fun float_less :: "pyfloat \<Rightarrow> pyfloat \<Rightarrow> bool" where
  "float_less NaN b = False"
| "float_less a NaN = False"
| "float_less PosInf b = False"
| "float_less a NegInf = False"
| "float_less NegInf b = True"
| "float_less a PosInf = True"
| "float_less a b = (float_value a < float_value b)"

text \<open>
  Rounding to the nearest integer, a tie going to the even one.
\<close>

definition round_half_even :: "rat \<Rightarrow> int" where
  "round_half_even r =
     (let f = \<lfloor>r\<rfloor>; d = r - of_int f
      in if d < 1 / 2 then f else if 1 / 2 < d then f + 1 else if even f then f else f + 1)"

text \<open>
  The binary exponent of a positive number \<open>a\<close>: the \<open>e\<close> with \<open>2 ^ e \<le> a < 2 ^ (e + 1)\<close>.
\<close>

function exponent2 :: "rat \<Rightarrow> int" where
  "exponent2 a =
     (if 2 \<le> a then exponent2 (a / 2) + 1
      else if 0 < a \<and> a < 1 then exponent2 (a * 2) - 1
      else 0)"
  by pat_completeness auto
termination
proof (relation "measure (\<lambda>a. if 1 \<le> a then nat \<lfloor>a\<rfloor> else 2 + nat \<lfloor>1 / a\<rfloor>)", goal_cases)
  case 1
  show ?case by simp
next
  case (2 a)
  then have "\<lfloor>a / 2\<rfloor> < \<lfloor>a\<rfloor>"
    by (simp add: floor_less_iff) linarith
  with 2 show ?case by simp
next
  case (3 a)
  then have pos: "0 < a" and lt: "a < 1" by simp_all
  show ?case
  proof (cases "1 \<le> a * 2")
    case True
    have "\<lfloor>a * 2\<rfloor> < 2" using lt by (simp add: floor_less_iff)
    then have "nat \<lfloor>a * 2\<rfloor> < 2" by linarith
    with True lt show ?thesis by simp
  next
    case False
    have "1 / (a * 2) < of_int \<lfloor>1 / a\<rfloor>"
    proof -
      have "2 < 1 / a" using pos False by (simp add: field_simps)
      moreover have "1 / a - 1 < of_int \<lfloor>1 / a\<rfloor>" by linarith
      moreover have "1 / (a * 2) = (1 / a) / 2" by simp
      ultimately show ?thesis by linarith
    qed
    then have "\<lfloor>1 / (a * 2)\<rfloor> < \<lfloor>1 / a\<rfloor>" by (simp add: floor_less_iff)
    moreover have "0 \<le> \<lfloor>1 / (a * 2)\<rfloor>" using pos by simp
    ultimately show ?thesis using False pos lt by simp
  qed
qed

declare exponent2.simps [simp del]

text \<open>
  The double nearest to a number (a tie going to the even mantissa): 53 bits of mantissa,
  the least exponent \<open>-1074\<close> of the subnormal numbers, infinity from \<open>2 ^ 1024\<close> on, and a
  zero with the sign of the number when it rounds to nothing. This is how a decimal
  literal becomes a float, and how the result of an arithmetic operation is rounded.
\<close>

definition double_round :: "rat \<Rightarrow> pyfloat" where
  "double_round r =
     (if r = 0 then Finite 0
      else let a = \<bar>r\<bar>;
               q = max (exponent2 a - 52) (- 1074);
               v = of_int (round_half_even (a / 2 powi q)) * 2 powi q
           in if 2 ^ 1024 \<le> v then (if r < 0 then NegInf else PosInf)
              else if v = 0 then (if r < 0 then NegZero else Finite 0)
              else Finite (if r < 0 then - v else v))"

text \<open>
  \<^verbatim>\<open>2. * x\<close>.
\<close>

fun float_times2 :: "pyfloat \<Rightarrow> pyfloat" where
  "float_times2 (Finite r) = double_round (2 * r)"
| "float_times2 f = f"

text \<open>
  \<^verbatim>\<open>10.**e\<close> for an integer \<open>e\<close>. The integer is converted to a float first, which raises
  \<open>OverflowError\<close> when it rounds to \<open>2 ^ 1024\<close> or beyond; the power raises \<open>OverflowError\<close>
  when it leaves the range of the doubles, and is zero, without an exception, below the
  least subnormal number. In between it is taken to be the double nearest to the power
  of ten.
\<close>

definition float_pow10 :: "int \<Rightarrow> error + pyfloat" where
  "float_pow10 e =
     (if 2 ^ 1024 - 2 ^ 970 \<le> \<bar>e\<bar>
      then Inl (OverflowError ''int too large to convert to float'')
      else if 308 < e
      then Inl (OverflowError
                  ([CHR ''('', CHR ''3'', CHR ''4'', CHR '','', CHR '' '', CHR 0x27]
                   @ ''Numerical result out of range'' @ [CHR 0x27, CHR '')'']))
      else if e < - 323 then Inr (Finite 0)
      else Inr (double_round (10 powi e)))"

section \<open>Rendering numbers\<close>

text \<open>
  \<^verbatim>\<open>str\<close> of a Python integer: decimal digits, with a minus sign when negative.
\<close>

definition digit_char :: "nat \<Rightarrow> char" where
  "digit_char d = ''0123456789'' ! (d mod 10)"

function str_nat :: "nat \<Rightarrow> string" where
  "str_nat n = (if n < 10 then [digit_char n] else str_nat (n div 10) @ [digit_char (n mod 10)])"
  by pat_completeness auto
termination
  by (relation "measure (\<lambda>n. n)") auto

declare str_nat.simps [simp del]

definition str_int :: "int \<Rightarrow> string" where
  "str_int i = (if i < 0 then ''-'' @ str_nat (nat (- i)) else str_nat (nat i))"

definition zero_pad :: "nat \<Rightarrow> string \<Rightarrow> string" where
  "zero_pad w s = replicate (w - length s) CHR ''0'' @ s"

text \<open>
  The format types \<^verbatim>\<open>f\<close> and \<^verbatim>\<open>e\<close> of \<^verbatim>\<open>str.format\<close> print the decimal number nearest to
  the exact value of the double, a tie going to the even digit.

  The digits of a decimal number with \<open>p\<close> places, given as the integer \<open>n\<close> of its last
  place: the whole part, and \<open>p\<close> digits after the point; no point at all when \<open>p = 0\<close>.
\<close>

definition decimal_body :: "nat \<Rightarrow> nat \<Rightarrow> string" where
  "decimal_body p n =
     str_nat (n div 10 ^ p)
     @ (if p = 0 then [] else ''.'' @ zero_pad p (str_nat (n mod 10 ^ p)))"

text \<open>
  \<^verbatim>\<open>'{0:.pf}'.format(x)\<close> for a finite \<open>x\<close>, given by its sign and its absolute value \<open>a\<close>: the
  sign and the value rounded to \<open>p\<close> places.
\<close>

definition format_f :: "nat \<Rightarrow> bool \<Rightarrow> rat \<Rightarrow> string" where
  "format_f p negative a =
     (let n = nat (round_half_even (a * 10 ^ p))
      in (if negative then ''-'' else []) @ decimal_body p n)"

text \<open>
  The decimal exponent of a positive number \<open>a\<close>: the \<open>e\<close> with \<open>10 ^ e \<le> a < 10 ^ (e + 1)\<close>.
\<close>

function exponent10 :: "rat \<Rightarrow> int" where
  "exponent10 a =
     (if 10 \<le> a then exponent10 (a / 10) + 1
      else if 0 < a \<and> a < 1 then exponent10 (a * 10) - 1
      else 0)"
  by pat_completeness auto
termination
proof (relation "measure (\<lambda>a. if 1 \<le> a then nat \<lfloor>a\<rfloor> else 10 + nat \<lfloor>1 / a\<rfloor>)", goal_cases)
  case 1
  show ?case by simp
next
  case (2 a)
  then have "\<lfloor>a / 10\<rfloor> < \<lfloor>a\<rfloor>"
    by (simp add: floor_less_iff) linarith
  with 2 show ?case by simp
next
  case (3 a)
  then have pos: "0 < a" and lt: "a < 1" by simp_all
  show ?case
  proof (cases "1 \<le> a * 10")
    case True
    have "\<lfloor>a * 10\<rfloor> < 10" using lt by (simp add: floor_less_iff)
    then have "nat \<lfloor>a * 10\<rfloor> < 10" by linarith
    with True lt show ?thesis by simp
  next
    case False
    have "1 / (a * 10) < of_int \<lfloor>1 / a\<rfloor>"
    proof -
      have "1 \<le> 1 / a" using pos lt by (simp add: field_simps)
      then have "1 \<le> \<lfloor>1 / a\<rfloor>" by (simp add: le_floor_iff)
      moreover have "1 / a - 1 < of_int \<lfloor>1 / a\<rfloor>" by linarith
      moreover have "1 / (a * 10) = (1 / a) / 10" by simp
      ultimately show ?thesis by linarith
    qed
    then have "\<lfloor>1 / (a * 10)\<rfloor> < \<lfloor>1 / a\<rfloor>" by (simp add: floor_less_iff)
    moreover have "0 \<le> \<lfloor>1 / (a * 10)\<rfloor>" using pos by simp
    ultimately show ?thesis using False pos lt by simp
  qed
qed

declare exponent10.simps [simp del]

text \<open>
  \<^verbatim>\<open>'{0:.pe}'.format(x)\<close> for a finite \<open>x\<close>, given by its sign and its absolute value \<open>a\<close>: the
  sign, the mantissa rounded to \<open>p\<close> places, then \<^verbatim>\<open>e\<close>, the sign of the exponent and at
  least two exponent digits. When rounding carries the mantissa up to \<open>10 ^ (p + 1)\<close> the
  exponent moves up by one.
\<close>

definition format_e :: "nat \<Rightarrow> bool \<Rightarrow> rat \<Rightarrow> string" where
  "format_e p negative a =
     (let e0 = (if a = 0 then 0 else exponent10 a);
          m0 = nat (round_half_even (a * 10 powi (int p - e0)));
          m = (if 10 ^ (p + 1) \<le> m0 then m0 div 10 else m0);
          e = (if 10 ^ (p + 1) \<le> m0 then e0 + 1 else e0)
      in (if negative then ''-'' else []) @ decimal_body p m
         @ ''e'' @ (if e < 0 then ''-'' else ''+'') @ zero_pad 2 (str_nat (nat \<bar>e\<bar>)))"

text \<open>
  The text of a float under the format type \<open>ty\<close> with \<open>p\<close> places. An infinity and NaN are
  printed by name, whatever the type and the places.
\<close>

fun float_text :: "char \<Rightarrow> nat \<Rightarrow> pyfloat \<Rightarrow> string" where
  "float_text ty p (Finite x) =
     (if ty = CHR ''e'' then format_e p (x < 0) \<bar>x\<bar> else format_f p (x < 0) \<bar>x\<bar>)"
| "float_text ty p NegZero =
     (if ty = CHR ''e'' then format_e p True 0 else format_f p True 0)"
| "float_text ty p PosInf = ''inf''"
| "float_text ty p NegInf = ''-inf''"
| "float_text ty p NaN = ''nan''"

text \<open>
  \<^verbatim>\<open>(' = {0:.' + str(precision) + ty + '}').format(value)\<close>. The precision of a format
  specification is a run of digits: for a negative \<open>precision\<close> the text after the point
  starts with a minus sign and \<^verbatim>\<open>format\<close> raises \<open>ValueError\<close>. It raises \<open>ValueError\<close> as well
  for a precision above the largest C \<open>int\<close> (and, read as digits, above the largest
  \<open>Py_ssize_t\<close>, here of 64 bits). The storage that a text of very many places needs is
  outside this model; the properties below are stated for at most 1000000 places.
\<close>

definition INT_MAX :: int where
  "INT_MAX = 2 ^ 31 - 1"

definition PY_SSIZE_T_MAX :: int where
  "PY_SSIZE_T_MAX = 2 ^ 63 - 1"

definition format_spec :: "char \<Rightarrow> int \<Rightarrow> pyfloat \<Rightarrow> error + string" where
  "format_spec ty precision value =
     (if precision < 0 then Inl (ValueError ''Format specifier missing precision'')
      else if PY_SSIZE_T_MAX < precision
      then Inl (ValueError ''Too many decimal digits in format string'')
      else if INT_MAX < precision then Inl (ValueError ''precision too big'')
      else Inr ('' = '' @ float_text ty (nat precision) value))"

section \<open>\<^verbatim>\<open>format_benchmark\<close>\<close>

text \<open>
  \<open>parameters\<close> is the list of the mapping's items in iteration order, the keys being
  strings. The builtin \<^verbatim>\<open>float\<close> is the parameter \<open>to_float\<close>: it returns the float or the
  exception it raises. The power \<^verbatim>\<open>10.**e\<close> is the parameter \<open>pow10\<close>, so that what is proved of
  the loop for every \<open>pow10\<close> does not depend on how the platform rounds a power. The
  loop carries the index \<open>i\<close> of \<^verbatim>\<open>enumerate\<close> and the string \<open>output\<close> built so far. The
  threshold \<^verbatim>\<open>2. * 10.**(- precision)\<close> is computed in floats, so it is a double near
  \<open>2 * 10 ^ (- precision)\<close>, not that number.
\<close>

fun format_loop ::
  "(int \<Rightarrow> error + pyfloat) \<Rightarrow> ('v \<Rightarrow> error + pyfloat) \<Rightarrow> int \<Rightarrow> nat
     \<Rightarrow> (string \<times> 'v) list \<Rightarrow> string \<Rightarrow> error + string" where
  "format_loop pow10 to_float precision i [] output = Inr output"
| "format_loop pow10 to_float precision i ((key, value) # rest) output =
     (let output = (if i > 0 then output @ '', '' else output)
      in case to_float value of
           Inl err \<Rightarrow> Inl err
         | Inr value \<Rightarrow>
             (case pow10 (- precision) of
                Inl err \<Rightarrow> Inl err
              | Inr ten_power \<Rightarrow>
                  (case (if float_less value (float_times2 ten_power)
                            \<or> float_less (Finite 100) value
                         then format_spec CHR ''e'' precision value
                         else format_spec CHR ''f'' precision value) of
                     Inl err \<Rightarrow> Inl err
                   | Inr text \<Rightarrow>
                       format_loop pow10 to_float precision (i + 1) rest
                         (output @ key @ text))))"

definition format_benchmark_pow ::
  "(int \<Rightarrow> error + pyfloat) \<Rightarrow> ('v \<Rightarrow> error + pyfloat) \<Rightarrow> (string \<times> 'v) list \<Rightarrow> int
     \<Rightarrow> error + string" where
  "format_benchmark_pow pow10 to_float parameters precision =
     format_loop pow10 to_float precision 0 parameters []"

text \<open>
  \<^verbatim>\<open>format_benchmark\<close>, with the power of the doubles.
\<close>

definition format_benchmark ::
  "('v \<Rightarrow> error + pyfloat) \<Rightarrow> (string \<times> 'v) list \<Rightarrow> int \<Rightarrow> error + string" where
  "format_benchmark to_float parameters precision =
     format_benchmark_pow float_pow10 to_float parameters precision"

text \<open>
  The values used in the examples, with \<^verbatim>\<open>float\<close> on them: a float, given by the number that
  its decimal literal denotes (the float is the double nearest to it); an integer, which
  \<^verbatim>\<open>float\<close> rounds to a double or refuses with \<open>OverflowError\<close>; and \<^verbatim>\<open>None\<close>.
\<close>

datatype pyvalue = PyFloat rat | PyInt int | PyNone

fun py_float :: "pyvalue \<Rightarrow> error + pyfloat" where
  "py_float (PyFloat r) = Inr (double_round r)"
| "py_float (PyInt n) =
     (if 2 ^ 1024 - 2 ^ 970 \<le> \<bar>n\<bar>
      then Inl (OverflowError ''int too large to convert to float'')
      else Inr (double_round (of_int n)))"
| "py_float PyNone =
     Inl (TypeError (''float() argument must be a string or a real number, not ''
                     @ [CHR 0x27] @ ''NoneType'' @ [CHR 0x27]))"

section \<open>\<^verbatim>\<open>call_command\<close>\<close>

text \<open>
  The finished process, as \<^verbatim>\<open>Popen(...).communicate()\<close> leaves it: the return code and,
  when the streams are pipes, the bytes captured from standard output and standard
  error. The environment is two parameters: \<open>popen\<close>, which runs a command to its end, and
  \<open>open_log\<close>, which opens the log file for writing and gives the exception that
  \<^verbatim>\<open>io.open\<close> raises, if it raises one. What the command writes to the log file is not
  modelled.
\<close>

record process =
  returncode :: int
  out :: string
  err :: string

text \<open>
  \<^verbatim>\<open>'{}'.format(b)\<close> for a bytes object \<open>b\<close>, in Python 3: its representation, \<^verbatim>\<open>b'...'\<close>. The
  quote is the double quote when the bytes hold a single quote and no double quote. The
  quote and the backslash are escaped with a backslash, tab, newline and carriage return
  are written \<^verbatim>\<open>\t\<close>, \<^verbatim>\<open>\n\<close>, \<^verbatim>\<open>\r\<close>, and every other byte outside the printable ASCII range is
  written \<^verbatim>\<open>\xhh\<close>.
\<close>

definition hex_digit :: "nat \<Rightarrow> char" where
  "hex_digit d = ''0123456789abcdef'' ! (d mod 16)"

definition escape_byte :: "char \<Rightarrow> char \<Rightarrow> string" where
  "escape_byte quote c =
     (if c = quote \<or> c = CHR 0x5C then [CHR 0x5C, c]
      else if c = CHR 0x09 then [CHR 0x5C, CHR ''t'']
      else if c = CHR 0x0A then [CHR 0x5C, CHR ''n'']
      else if c = CHR 0x0D then [CHR 0x5C, CHR ''r'']
      else if of_char c < (32 :: nat) \<or> (127 :: nat) \<le> of_char c
      then [CHR 0x5C, CHR ''x'', hex_digit (of_char c div 16), hex_digit (of_char c mod 16)]
      else [c])"

definition bytes_repr :: "string \<Rightarrow> string" where
  "bytes_repr b =
     (let quote = (if CHR 0x27 \<in> set b \<and> CHR 0x22 \<notin> set b then CHR 0x22 else CHR 0x27)
      in [CHR ''b'', quote] @ concat (map (escape_byte quote) b) @ [quote])"

definition call_command ::
  "(string \<Rightarrow> process) \<Rightarrow> (string \<Rightarrow> error option) \<Rightarrow> string \<Rightarrow> string option
     \<Rightarrow> error + int" where
  "call_command popen open_log cmd log_file =
     (case log_file of
        Some file \<Rightarrow>
          (case open_log file of
             Some e \<Rightarrow> Inl e
           | None \<Rightarrow>
               (let proc = popen cmd;
                    exitcode = returncode proc
                in if exitcode \<noteq> 0
                   then Inl (RuntimeError
                          (''Calling command '' @ cmd @ '' returned exit code ''
                           @ str_int exitcode @ ''. Output in file '' @ file @ ''.''))
                   else Inr exitcode))
      | None \<Rightarrow>
          (let proc = popen cmd;
               exitcode = returncode proc
           in if exitcode \<noteq> 0
              then Inl (RuntimeError
                     (''Calling command '' @ cmd @ '' returned exit code '' @ str_int exitcode
                      @ [CHR ''.'', CHR 0x0A, CHR 0x0A] @ ''Std output:'' @ [CHR 0x0A, CHR 0x0A]
                      @ bytes_repr (out proc) @ ''Error output:'' @ [CHR 0x0A, CHR 0x0A]
                      @ bytes_repr (err proc)))
              else Inr exitcode))"

section \<open>\<^verbatim>\<open>create_missing_folders\<close>\<close>

text \<open>
  The file system: a path is the list of its components below the working directory (the
  empty list is the working directory itself), and a path that exists is a directory or a
  file of another kind. Links, permissions and the components \<^verbatim>\<open>.\<close> and \<^verbatim>\<open>..\<close> are outside
  this model.
\<close>

datatype node = Dir | File

type_synonym path = "string list"

type_synonym filesystem = "path \<Rightarrow> node option"

fun path_str :: "path \<Rightarrow> string" where
  "path_str [] = []"
| "path_str [c] = c"
| "path_str (c # cs) = c @ ''/'' @ path_str cs"

definition path_exists :: "filesystem \<Rightarrow> path \<Rightarrow> bool" where
  "path_exists fs p = (fs p \<noteq> None)"

definition path_isdir :: "filesystem \<Rightarrow> path \<Rightarrow> bool" where
  "path_isdir fs p = (fs p = Some Dir)"

text \<open>
  \<^verbatim>\<open>os.mkdir\<close> creates one directory: the path must not exist and its parent must be a
  directory. A failed call leaves the file system as it was.
\<close>

definition mkdir :: "path \<Rightarrow> filesystem \<Rightarrow> (error + unit) \<times> filesystem" where
  "mkdir name fs =
     (if fs name \<noteq> None then (Inl (FileExistsError (path_str name)), fs)
      else if name = [] then (Inl (FileNotFoundError (path_str name)), fs)
      else case fs (butlast name) of
             Some Dir \<Rightarrow> (Inr (), fs(name \<mapsto> Dir))
           | Some File \<Rightarrow> (Inl (NotADirectoryError (path_str name)), fs)
           | None \<Rightarrow> (Inl (FileNotFoundError (path_str name)), fs))"

text \<open>
  \<^verbatim>\<open>os.makedirs\<close> (with \<^verbatim>\<open>exist_ok=False\<close>), as the library defines it: when the parent
  \<open>head\<close> is missing it is made first, by the same function, a \<open>FileExistsError\<close> of that
  call being ignored; then \<^verbatim>\<open>mkdir\<close> makes the path itself.
\<close>

function makedirs :: "path \<Rightarrow> filesystem \<Rightarrow> (error + unit) \<times> filesystem" where
  "makedirs name fs =
     (let head = butlast name
      in if head \<noteq> [] \<and> name \<noteq> [] \<and> \<not> path_exists fs head
         then (case makedirs head fs of
                 (Inl (FileExistsError m), fs') \<Rightarrow> mkdir name fs'
               | (Inl e, fs') \<Rightarrow> (Inl e, fs')
               | (Inr u, fs') \<Rightarrow> mkdir name fs')
         else mkdir name fs)"
  by pat_completeness auto
termination
  by (relation "measure (\<lambda>(name, fs). length name)") auto

declare makedirs.simps [simp del]

text \<open>
  The loop over \<open>folders\<close>. The result is the exception raised, if any, and the file system
  as the call leaves it.
\<close>

fun create_missing_folders :: "path list \<Rightarrow> filesystem \<Rightarrow> (error + unit) \<times> filesystem" where
  "create_missing_folders [] fs = (Inr (), fs)"
| "create_missing_folders (folder # folders) fs =
     (if \<not> path_exists fs folder
      then (case makedirs folder fs of
              (Inl e, fs') \<Rightarrow> (Inl e, fs')
            | (Inr u, fs') \<Rightarrow> create_missing_folders folders fs')
      else if \<not> path_isdir fs folder
      then (Inl (OSError (''Path '' @ path_str folder @ '' exists, but is no directory!'')), fs)
      else create_missing_folders folders fs)"

section \<open>\<^verbatim>\<open>general_init\<close>\<close>

text \<open>
  The state of the process that \<^verbatim>\<open>general_init\<close> touches: the root logger (its handlers,
  each a format and a date format, and its level), the messages the handlers were given,
  and numpy's formatter for floats. The levels are those of the \<^verbatim>\<open>logging\<close> module.
\<close>

record pystate =
  root_handlers :: "(string \<times> string option) list"
  root_level :: nat
  log_records :: "string list"
  float_kind :: "string option"

definition DEBUG :: nat where
  "DEBUG = 10"

definition INFO :: nat where
  "INFO = 20"

definition WARNING :: nat where
  "WARNING = 30"

text \<open>
  \<^verbatim>\<open>logging.basicConfig\<close> does nothing when the root logger already has a handler.
  Otherwise it adds a stream handler with the format and sets the level, if one is given.
\<close>

definition basicConfig :: "string \<Rightarrow> string option \<Rightarrow> nat option \<Rightarrow> pystate \<Rightarrow> pystate" where
  "basicConfig fmt datefmt lvl st =
     (if root_handlers st = []
      then (let st = st\<lparr>root_handlers := [(fmt, datefmt)]\<rparr>
            in case lvl of None \<Rightarrow> st | Some l \<Rightarrow> st\<lparr>root_level := l\<rparr>)
      else st)"

text \<open>
  \<^verbatim>\<open>logging.info\<close>: the module-level function configures the root logger with the defaults
  when it has no handler, and hands the message to the handlers when the level of the root
  logger lets \<open>INFO\<close> through.
\<close>

definition logging_info :: "string \<Rightarrow> pystate \<Rightarrow> pystate" where
  "logging_info msg st =
     (let st = (if root_handlers st = []
                then basicConfig ''%(levelname)s:%(name)s:%(message)s'' None None st
                else st)
      in if root_level st \<le> INFO then st\<lparr>log_records := log_records st @ [msg]\<rparr> else st)"

definition set_printoptions :: "string \<Rightarrow> pystate \<Rightarrow> pystate" where
  "set_printoptions float_fmt st = st\<lparr>float_kind := Some float_fmt\<rparr>"

definition general_init :: "bool \<Rightarrow> pystate \<Rightarrow> pystate" where
  "general_init debug st =
     (let st = basicConfig ''%(asctime)s  %(message)s'' (Some ''%H:%m'')
                 (Some (if debug then DEBUG else INFO)) st;
          st = logging_info [] st;
          st = logging_info ''------------------------------------------------------------'' st;
          st = logging_info ''|                                                          |'' st;
          st = logging_info ''|  MadMiner                                                |'' st;
          st = logging_info ''|                                                          |'' st;
          st = logging_info ''|  Version from July 5, 2018                               |'' st;
          st = logging_info ''|                                                          |'' st;
          st = logging_info ''|           Johann Brehmer, Kyle Cranmer, and Felix Kling  |'' st;
          st = logging_info ''|                                                          |'' st;
          st = logging_info ''------------------------------------------------------------'' st;
          st = logging_info [] st;
          st = logging_info ''Hi! How are you today?'' st
      in set_printoptions ''%.2f'' st)"

section \<open>Vocabulary of the properties\<close>

text \<open>
  The two notations, as the specification writes them. Fixed-point notation with \<open>p\<close>
  places (\<^verbatim>\<open>x.xx\<close>): an optional minus sign, at least one digit and, when \<open>p > 0\<close>, a point
  and exactly \<open>p\<close> digits. Scientific notation with \<open>p\<close> places (\<^verbatim>\<open>x.xxe+yy\<close>): a mantissa
  in fixed-point notation with \<open>p\<close> places, the letter \<^verbatim>\<open>e\<close>, a sign and at least two digits.
\<close>

definition is_digit :: "char \<Rightarrow> bool" where
  "is_digit c = (c \<in> set ''0123456789'')"

fun unsigned :: "string \<Rightarrow> string" where
  "unsigned [] = []"
| "unsigned (c # cs) = (if c = CHR ''-'' then cs else c # cs)"

definition fixed_notation :: "nat \<Rightarrow> string \<Rightarrow> bool" where
  "fixed_notation p s =
     (let u = unsigned s; whole = takeWhile is_digit u; rest = dropWhile is_digit u
      in whole \<noteq> [] \<and>
         (if p = 0 then rest = []
          else rest \<noteq> [] \<and> hd rest = CHR ''.'' \<and> length (tl rest) = p
               \<and> list_all is_digit (tl rest)))"

definition scientific_notation :: "nat \<Rightarrow> string \<Rightarrow> bool" where
  "scientific_notation p s =
     (let mantissa = takeWhile (\<lambda>c. c \<noteq> CHR ''e'') s;
          rest = dropWhile (\<lambda>c. c \<noteq> CHR ''e'') s
      in fixed_notation p mantissa \<and> 4 \<le> length rest \<and>
         (rest ! 1 = CHR ''+'' \<or> rest ! 1 = CHR ''-'') \<and> list_all is_digit (drop 2 rest))"

text \<open>
  \<^verbatim>\<open>sep.join(texts)\<close>, and the outcome of a run of steps that stops at the first
  exception.
\<close>

fun join :: "string \<Rightarrow> string list \<Rightarrow> string" where
  "join sep [] = []"
| "join sep [s] = s"
| "join sep (s # t # ts) = s @ sep @ join sep (t # ts)"

fun all_or_first_error :: "(error + 'a) list \<Rightarrow> error + 'a list" where
  "all_or_first_error [] = Inr []"
| "all_or_first_error (Inl e # rs) = Inl e"
| "all_or_first_error (Inr x # rs) =
     (case all_or_first_error rs of Inl e \<Rightarrow> Inl e | Inr xs \<Rightarrow> Inr (x # xs))"

section \<open>Rounding and exponents\<close>

lemma exponent2_bounds:
  "0 < a \<Longrightarrow> 2 powi (exponent2 a) \<le> a \<and> a < 2 powi (exponent2 a + 1)"
proof (induction a rule: exponent2.induct)
  case (1 a)
  show ?case
  proof (cases "2 \<le> a")
    case True
    then have e: "exponent2 a = exponent2 (a / 2) + 1" by (subst exponent2.simps) simp
    have "0 < a / 2" using True by simp
    then have ih: "2 powi (exponent2 (a / 2)) \<le> a / 2" "a / 2 < 2 powi (exponent2 (a / 2) + 1)"
      using "1.IH"(1)[OF True] by simp_all
    have p: "(2::rat) powi (k + 1) = 2 powi k * 2" for k
      by (rule power_int_add_1) simp
    show ?thesis using ih unfolding e p by (simp add: field_simps)
  next
    case False
    show ?thesis
    proof (cases "a < 1")
      case True
      then have c: "0 < a \<and> a < 1" using "1.prems" by simp
      then have e: "exponent2 a = exponent2 (a * 2) - 1"
        using False by (subst exponent2.simps) simp
      have "0 < a * 2" using c by simp
      then have ih: "2 powi (exponent2 (a * 2)) \<le> a * 2" "a * 2 < 2 powi (exponent2 (a * 2) + 1)"
        using "1.IH"(2)[OF False c] by simp_all
      have p: "(2::rat) powi (k + 1) = 2 powi k * 2" for k
        by (rule power_int_add_1) simp
      have q: "(2::rat) powi k = 2 powi (k - 1) * 2" for k
        using p[of "k - 1"] by simp
      show ?thesis using ih unfolding e by (simp add: p) (simp add: q[of "exponent2 (a * 2)"])
    next
      case False2: False
      then have e: "exponent2 a = 0" using False by (subst exponent2.simps) simp
      show ?thesis using False False2 by (simp add: e)
    qed
  qed
qed

lemma power_int_unique:
  assumes "(1::rat) < b" "b powi e \<le> a" "a < b powi (e + 1)" "b powi e' \<le> a" "a < b powi (e' + 1)"
  shows "e = e'"
proof -
  have 1: "e < e' + 1"
  proof (rule ccontr)
    assume "\<not> e < e' + 1"
    then have "e' + 1 \<le> e" by simp
    then have "b powi (e' + 1) \<le> b powi e" using assms(1) by (intro power_int_increasing) simp_all
    then show False using assms by linarith
  qed
  have 2: "e' < e + 1"
  proof (rule ccontr)
    assume "\<not> e' < e + 1"
    then have "e + 1 \<le> e'" by simp
    then have "b powi (e + 1) \<le> b powi e'" using assms(1) by (intro power_int_increasing) simp_all
    then show False using assms by linarith
  qed
  show ?thesis using 1 2 by simp
qed

lemma exponent2_eq:
  assumes "2 powi e \<le> a" "a < 2 powi (e + 1)"
  shows "exponent2 a = e"
proof -
  have "0 < a" using assms(1) zero_less_power_int[of "2::rat" e] by linarith
  then show ?thesis
    using exponent2_bounds[of a] assms power_int_unique[of 2 "exponent2 a" a e] by simp
qed

lemma round_half_even_eq:
  assumes "\<bar>x - of_int m\<bar> < 1 / 2"
  shows "round_half_even x = m"
proof (cases "of_int m \<le> x")
  case True
  then have "\<lfloor>x\<rfloor> = m" using assms by (simp add: floor_unique)
  then show ?thesis using assms True by (simp add: round_half_even_def Let_def)
next
  case False
  moreover have "(of_int (m - 1) :: rat) = of_int m - 1" by simp
  ultimately have "of_int (m - 1) \<le> x" "x < of_int (m - 1) + 1" using assms by linarith+
  then have "\<lfloor>x\<rfloor> = m - 1" by (rule floor_unique)
  then show ?thesis using assms False by (simp add: round_half_even_def Let_def)
qed

lemma exponent10_bounds:
  "0 < a \<Longrightarrow> 10 powi (exponent10 a) \<le> a \<and> a < 10 powi (exponent10 a + 1)"
proof (induction a rule: exponent10.induct)
  case (1 a)
  have p: "(10::rat) powi (k + 1) = 10 powi k * 10" for k
    by (rule power_int_add_1) simp
  have q: "(10::rat) powi k = 10 powi (k - 1) * 10" for k
    using p[of "k - 1"] by simp
  show ?case
  proof (cases "10 \<le> a")
    case True
    then have e: "exponent10 a = exponent10 (a / 10) + 1" by (subst exponent10.simps) simp
    have "0 < a / 10" using True by simp
    then have ih: "10 powi (exponent10 (a / 10)) \<le> a / 10"
      "a / 10 < 10 powi (exponent10 (a / 10) + 1)"
      using "1.IH"(1)[OF True] by simp_all
    show ?thesis using ih unfolding e p by (simp add: field_simps)
  next
    case False
    show ?thesis
    proof (cases "a < 1")
      case True
      then have c: "0 < a \<and> a < 1" using "1.prems" by simp
      then have e: "exponent10 a = exponent10 (a * 10) - 1"
        using False by (subst exponent10.simps) simp
      have "0 < a * 10" using c by simp
      then have ih: "10 powi (exponent10 (a * 10)) \<le> a * 10"
        "a * 10 < 10 powi (exponent10 (a * 10) + 1)"
        using "1.IH"(2)[OF False c] by simp_all
      show ?thesis using ih unfolding e by (simp add: p) (simp add: q[of "exponent10 (a * 10)"])
    next
      case False2: False
      then have e: "exponent10 a = 0" using False by (subst exponent10.simps) simp
      show ?thesis using False False2 by (simp add: e)
    qed
  qed
qed

lemma exponent10_eq:
  assumes "10 powi e \<le> a" "a < 10 powi (e + 1)"
  shows "exponent10 a = e"
proof -
  have "0 < a" using assms(1) zero_less_power_int[of "10::rat" e] by linarith
  then show ?thesis
    using exponent10_bounds[of a] assms power_int_unique[of 10 "exponent10 a" a e] by simp
qed

lemma double_round_eq:
  assumes "2 powi e \<le> \<bar>r\<bar>" "\<bar>r\<bar> < 2 powi (e + 1)" "q = max (e - 52) (- 1074)"
    and "\<bar>\<bar>r\<bar> / 2 powi q - of_int m\<bar> < 1 / 2" "0 < m"
    and "rat_of_int m * 2 powi q < 2 ^ 1024"
  shows "double_round r = Finite (if r < 0 then - (of_int m * 2 powi q) else of_int m * 2 powi q)"
proof -
  have "0 < \<bar>r\<bar>" using assms(1) zero_less_power_int[of "2::rat" e] by linarith
  then have r: "r \<noteq> 0" by simp
  have e: "exponent2 \<bar>r\<bar> = e" using assms(1,2) by (rule exponent2_eq)
  have m: "round_half_even (\<bar>r\<bar> / 2 powi q) = m" using assms(4) by (rule round_half_even_eq)
  have v: "0 < rat_of_int m * 2 powi q" using assms(5) by simp
  show ?thesis
    unfolding double_round_def Let_def e assms(3)[symmetric] m
    using r v assms(5,6) by simp
qed

section \<open>Digits and notations\<close>

lemma is_digit_simps:
  "is_digit CHR ''0''" "\<not> is_digit CHR ''e''" "\<not> is_digit CHR ''.''" "\<not> is_digit CHR ''-''"
  by (simp_all add: is_digit_def)

lemma is_digit_digit_char: "is_digit (digit_char d)"
  unfolding is_digit_def digit_char_def by (rule nth_mem) simp

lemma str_nat_digits: "list_all is_digit (str_nat n)"
proof (induction n rule: str_nat.induct)
  case (1 n)
  show ?case
  proof (cases "n < 10")
    case True
    then show ?thesis by (subst str_nat.simps) (simp add: is_digit_digit_char)
  next
    case False
    with 1 show ?thesis by (subst str_nat.simps) (simp add: is_digit_digit_char)
  qed
qed

lemma str_nat_nonempty: "str_nat n \<noteq> []"
  by (subst str_nat.simps) simp

lemma str_nat_length: "0 < p \<Longrightarrow> n < 10 ^ p \<Longrightarrow> length (str_nat n) \<le> p"
proof (induction n arbitrary: p rule: str_nat.induct)
  case (1 n)
  show ?case
  proof (cases "n < 10")
    case True
    with 1 show ?thesis by (subst str_nat.simps) simp
  next
    case False
    obtain q where p: "p = Suc q" using 1(2) by (cases p) auto
    have "q \<noteq> 0" using False 1(3) p by (cases q) auto
    moreover have "n div 10 < 10 ^ q" using 1(3) p by (simp add: less_mult_imp_div_less)
    ultimately have "length (str_nat (n div 10)) \<le> q" using 1(1)[OF False, of q] by simp
    with False p show ?thesis by (subst str_nat.simps) simp
  qed
qed

lemma zero_pad_digits: "list_all is_digit s \<Longrightarrow> list_all is_digit (zero_pad w s)"
  by (auto simp: zero_pad_def list_all_iff is_digit_simps)

lemma zero_pad_length: "length s \<le> w \<Longrightarrow> length (zero_pad w s) = w"
  by (simp add: zero_pad_def)

lemma zero_pad_length_ge: "w \<le> length (zero_pad w s)"
  by (simp add: zero_pad_def)

lemma fraction_digits:
  "0 < p \<Longrightarrow> length (zero_pad p (str_nat (n mod 10 ^ p))) = p
     \<and> list_all is_digit (zero_pad p (str_nat (n mod 10 ^ p)))"
  by (simp add: zero_pad_length str_nat_length zero_pad_digits str_nat_digits)

lemma takeWhile_digits:
  "list_all is_digit ds \<Longrightarrow> takeWhile is_digit (ds @ CHR ''.'' # fs) = ds"
  by (induction ds) (simp_all add: is_digit_simps)

lemma dropWhile_digits:
  "list_all is_digit ds \<Longrightarrow> dropWhile is_digit (ds @ CHR ''.'' # fs) = CHR ''.'' # fs"
  by (induction ds) (simp_all add: is_digit_simps)

lemma takeWhile_all: "list_all P ds \<Longrightarrow> takeWhile P ds = ds"
  by (induction ds) simp_all

lemma dropWhile_all: "list_all P ds \<Longrightarrow> dropWhile P ds = []"
  by (induction ds) simp_all

lemma unsigned_digits:
  "list_all is_digit ds \<Longrightarrow> unsigned (ds @ r) = (if ds = [] then unsigned r else ds @ r)"
  by (cases ds) (auto simp: is_digit_simps)

lemma unsigned_digits_only: "list_all is_digit ds \<Longrightarrow> unsigned ds = ds"
  by (cases ds) (auto simp: is_digit_simps)

lemma digits_no_e: "list_all is_digit s \<Longrightarrow> CHR ''e'' \<notin> set s"
  by (auto simp: list_all_iff is_digit_simps)

lemma fixed_notation_body:
  assumes "sign = [] \<or> sign = ''-''"
  shows "fixed_notation p (sign @ decimal_body p n)"
proof -
  let ?w = "str_nat (n div 10 ^ p)"
  have w: "list_all is_digit ?w" "?w \<noteq> []"
    by (simp_all add: str_nat_digits str_nat_nonempty)
  have u: "unsigned (sign @ decimal_body p n) = decimal_body p n"
    using assms w unsigned_digits[OF w(1)] unsigned_digits_only[OF w(1)]
    by (auto simp: decimal_body_def)
  show ?thesis
  proof (cases "p = 0")
    case True
    then show ?thesis using w(2) unfolding fixed_notation_def Let_def u
      by (simp add: decimal_body_def takeWhile_all[OF str_nat_digits]
          dropWhile_all[OF str_nat_digits] str_nat_nonempty)
  next
    case False
    then show ?thesis using w(2) fraction_digits[of p n] unfolding fixed_notation_def Let_def u
      by (simp add: decimal_body_def takeWhile_digits[OF str_nat_digits]
          dropWhile_digits[OF str_nat_digits] str_nat_nonempty)
  qed
qed

lemma format_f_fixed: "fixed_notation p (format_f p negative a)"
  using fixed_notation_body[of "if negative then ''-'' else []" p]
  by (simp add: format_f_def Let_def)

lemma no_e_body:
  assumes "sign = [] \<or> sign = ''-''"
  shows "CHR ''e'' \<notin> set (sign @ decimal_body p n)"
  using assms digits_no_e[OF str_nat_digits] digits_no_e[OF zero_pad_digits[OF str_nat_digits]]
  by (auto simp: decimal_body_def)

lemma takeWhile_no_e:
  "CHR ''e'' \<notin> set m \<Longrightarrow> takeWhile (\<lambda>c. c \<noteq> CHR ''e'') (m @ CHR ''e'' # r) = m"
  by (induction m) auto

lemma dropWhile_no_e:
  "CHR ''e'' \<notin> set m \<Longrightarrow> dropWhile (\<lambda>c. c \<noteq> CHR ''e'') (m @ CHR ''e'' # r) = CHR ''e'' # r"
  by (induction m) auto

lemma format_e_scientific: "scientific_notation p (format_e p negative a)"
proof -
  define e0 where "e0 = (if a = 0 then 0 else exponent10 a)"
  define m0 where "m0 = nat (round_half_even (a * 10 powi (int p - e0)))"
  define m where "m = (if 10 ^ (p + 1) \<le> m0 then m0 div 10 else m0)"
  define e where "e = (if 10 ^ (p + 1) \<le> m0 then e0 + 1 else e0)"
  define sign where "sign = (if negative then ''-'' else [])"
  define ex where "ex = (if e < 0 then CHR ''-'' else CHR ''+'') # zero_pad 2 (str_nat (nat \<bar>e\<bar>))"
  have eq: "format_e p negative a = (sign @ decimal_body p m) @ CHR ''e'' # ex"
    unfolding ex_def sign_def e_def m_def m0_def e0_def format_e_def Let_def
    by simp
  have s: "sign = [] \<or> sign = ''-''" by (simp add: sign_def)
  have len: "3 \<le> length ex" using zero_pad_length_ge[of 2] by (simp add: ex_def)
  have dig: "list_all is_digit (tl ex)" by (simp add: ex_def zero_pad_digits str_nat_digits)
  have "ex ! 0 = CHR ''+'' \<or> ex ! 0 = CHR ''-''" by (simp add: ex_def)
  then show ?thesis
    unfolding eq scientific_notation_def Let_def
    using takeWhile_no_e[OF no_e_body[OF s]] dropWhile_no_e[OF no_e_body[OF s]]
      fixed_notation_body[OF s] len dig
    by (simp add: drop_Suc)
qed

lemma set_unsigned: "set s \<subseteq> insert CHR ''-'' (set (unsigned s))"
  by (cases s) auto

lemma fixed_no_e:
  assumes "fixed_notation p s"
  shows "CHR ''e'' \<notin> set s"
proof -
  define u where "u = unsigned s"
  define rest where "rest = dropWhile is_digit u"
  have u: "u = takeWhile is_digit u @ rest" by (simp add: rest_def)
  have 1: "CHR ''e'' \<notin> set (takeWhile is_digit u)"
    by (rule digits_no_e) (auto simp: list_all_iff dest: set_takeWhileD)
  have 2: "CHR ''e'' \<notin> set rest"
  proof (cases "rest = []")
    case True
    then show ?thesis by simp
  next
    case False
    then obtain c cs where r: "rest = c # cs" by (cases rest) auto
    from assms have "c = CHR ''.''" "list_all is_digit cs"
      unfolding fixed_notation_def Let_def u_def[symmetric] rest_def[symmetric] r
      by (simp_all split: if_splits)
    then show ?thesis using digits_no_e[of cs] by (simp add: r)
  qed
  have "CHR ''e'' \<notin> set u" using 1 2 by (subst u) simp
  then show ?thesis using set_unsigned[of s] by (auto simp: u_def)
qed

lemma scientific_has_e:
  assumes "scientific_notation p s"
  shows "CHR ''e'' \<in> set s"
proof -
  define rest where "rest = dropWhile (\<lambda>c. c \<noteq> CHR ''e'') s"
  from assms have "4 \<le> length rest"
    unfolding scientific_notation_def Let_def rest_def[symmetric] by simp
  then have ne: "rest \<noteq> []" by auto
  then have "hd rest \<in> set rest" by simp
  then have "hd rest \<in> set s" unfolding rest_def by (rule set_dropWhileD)
  moreover have "hd rest = CHR ''e''"
    using ne hd_dropWhile[of "\<lambda>c. c \<noteq> CHR ''e''" s] unfolding rest_def by simp
  ultimately show ?thesis by simp
qed

section \<open>Doubles of the examples\<close>

lemma double_round_overflow:
  assumes "2 ^ 1024 \<le> \<bar>r\<bar>"
  shows "double_round r = (if r < 0 then NegInf else PosInf)"
proof -
  define e where "e = exponent2 \<bar>r\<bar>"
  define q where "q = max (e - 52) (- 1074)"
  define x where "x = \<bar>r\<bar> / 2 powi q"
  have "(0::rat) < 2 ^ 1024" by simp
  then have pos: "0 < \<bar>r\<bar>" using assms by linarith
  then have r: "r \<noteq> 0" by simp
  have b: "2 powi e \<le> \<bar>r\<bar>" "\<bar>r\<bar> < 2 powi (e + 1)"
    using exponent2_bounds[OF pos] by (simp_all add: e_def)
  have "(2::rat) powi 1024 < 2 powi (e + 1)" using assms b(2) by simp
  then have e: "1024 \<le> e"
    using power_int_increasing[of "e + 1" 1024 "2::rat"] by (cases "1024 \<le> e") auto
  then have q: "q = e - 52" by (simp add: q_def)
  have two: "(2::rat) powi e = 2 powi q * 2 powi 52"
    unfolding q using power_int_add[of "2::rat" "e - 52" 52] by simp
  have "(2::rat) powi 52 \<le> x"
    using b(1) unfolding x_def two by (simp add: field_simps)
  then have "rat_of_int (2 ^ 52) \<le> x" by simp
  then have "2 ^ 52 \<le> \<lfloor>x\<rfloor>" by (simp only: le_floor_iff)
  moreover have "\<lfloor>x\<rfloor> \<le> round_half_even x"
    by (simp add: round_half_even_def Let_def)
  ultimately have m: "2 ^ 52 \<le> round_half_even x" by linarith
  have "(2::rat) powi e \<le> of_int (round_half_even x) * 2 powi q"
  proof -
    have "(2::rat) powi 52 \<le> of_int (round_half_even x)"
      using m by (metis of_int_le_iff of_int_numeral of_int_power power_int_numeral)
    then have "(2::rat) powi 52 * 2 powi q \<le> of_int (round_half_even x) * 2 powi q"
      by (intro mult_right_mono) simp_all
    then show ?thesis unfolding two by (simp add: mult.commute)
  qed
  moreover have "(2::rat) ^ 1024 \<le> 2 powi e"
    using power_int_increasing[of 1024 e "2::rat"] e by simp
  ultimately have "(2::rat) ^ 1024 \<le> of_int (round_half_even x) * 2 powi q" by linarith
  then show ?thesis
    unfolding double_round_def Let_def e_def[symmetric] q_def[symmetric] x_def[symmetric]
    using r by simp
qed

lemma double_0_02: "double_round (2 / 100) = Finite (5764607523034235 / 288230376151711744)"
  using double_round_eq[of "- 6" "2 / 100" "- 58" 5764607523034235] by simp

lemma double_0_005: "double_round (5 / 1000) = Finite (5764607523034235 / 1152921504606846976)"
  using double_round_eq[of "- 8" "5 / 1000" "- 60" 5764607523034235] by simp

lemma double_2em6:
  "double_round (2 / 1000000) = Finite (4722366482869645 / 2361183241434822606848)"
  using double_round_eq[of "- 19" "2 / 1000000" "- 71" 4722366482869645] by simp

lemma double_100: "double_round 100 = Finite 100"
  using double_round_eq[of 6 100 "- 46" 7036874417766400] by simp

lemma double_50: "double_round 50 = Finite 50"
  using double_round_eq[of 5 50 "- 47" 7036874417766400] by simp

lemma double_minus_50: "double_round (- 50) = Finite (- 50)"
  using double_round_eq[of 5 "- 50" "- 47" 7036874417766400] by simp

lemma double_150: "double_round 150 = Finite 150"
  using double_round_eq[of 7 150 "- 45" 5277655813324800] by simp

lemma double_1: "double_round 1 = Finite 1"
  using double_round_eq[of 0 1 "- 52" 4503599627370496] by simp

lemma double_2: "double_round 2 = Finite 2"
  using double_round_eq[of 1 2 "- 51" 4503599627370496] by simp

lemma double_half: "double_round (1 / 2) = Finite (1 / 2)"
  using double_round_eq[of "- 1" "1 / 2" "- 53" 4503599627370496] by simp

lemma double_inf: "double_round (10 ^ 400) = PosInf"
  using double_round_overflow[of "10 ^ 400"] by simp

text \<open>
  The thresholds \<^verbatim>\<open>2. * 10.**(-2)\<close> and \<^verbatim>\<open>2. * 10.**(-6)\<close>: the doubles \<open>0.02\<close> and \<open>2e-06\<close>.
\<close>

lemma pow10_minus_2: "float_pow10 (- 2) = Inr (Finite (5764607523034235 / 576460752303423488))"
  using double_round_eq[of "- 7" "10 powi (- 2)" "- 59" 5764607523034235]
  by (simp add: float_pow10_def)

lemma threshold_2:
  "float_times2 (Finite (5764607523034235 / 576460752303423488))
     = Finite (5764607523034235 / 288230376151711744)"
  using double_round_eq[of "- 6" "5764607523034235 / 288230376151711744" "- 58" 5764607523034235]
  by simp

lemma pow10_minus_6:
  "float_pow10 (- 6) = Inr (Finite (4722366482869645 / 4722366482869645213696))"
  using double_round_eq[of "- 20" "10 powi (- 6)" "- 72" 4722366482869645]
  by (simp add: float_pow10_def)

lemma threshold_6:
  "float_times2 (Finite (4722366482869645 / 4722366482869645213696))
     = Finite (4722366482869645 / 2361183241434822606848)"
  using double_round_eq[of "- 19" "4722366482869645 / 2361183241434822606848" "- 71"
      4722366482869645]
  by simp

section \<open>Texts of the examples\<close>

lemma format_f_eval:
  assumes "\<bar>a * 10 ^ p - of_int (int n)\<bar> < 1 / 2"
  shows "format_f p negative a = (if negative then ''-'' else []) @ decimal_body p n"
  using round_half_even_eq[OF assms] by (simp add: format_f_def)

lemma format_e_eval:
  assumes "10 powi e \<le> a" "a < 10 powi (e + 1)"
    and "\<bar>a * 10 powi (int p - e) - of_int (int m)\<bar> < 1 / 2" "m < 10 ^ (p + 1)"
  shows "format_e p negative a =
           (if negative then ''-'' else []) @ decimal_body p m
           @ ''e'' @ (if e < 0 then ''-'' else ''+'') @ zero_pad 2 (str_nat (nat \<bar>e\<bar>))"
proof -
  have "0 < a" using assms(1) zero_less_power_int[of "10::rat" e] by linarith
  then have a: "a \<noteq> 0" by simp
  have e: "exponent10 a = e" using assms(1,2) by (rule exponent10_eq)
  show ?thesis
    unfolding format_e_def Let_def using a assms(4)
    by (simp add: e round_half_even_eq[OF assms(3)])
qed

lemma str_nat_small: "n < 10 \<Longrightarrow> str_nat n = [digit_char n]"
  by (subst str_nat.simps) simp

lemma body_0_02: "decimal_body 2 2 = ''0.02''"
  by (simp add: decimal_body_def zero_pad_def str_nat_small digit_char_def)

lemma replicate_5: "replicate 5 c = [c, c, c, c, c]"
  by (simp add: numeral_eq_Suc)

lemma body_0_000002: "decimal_body 6 2 = ''0.000002''"
  by (simp add: decimal_body_def zero_pad_def str_nat_small digit_char_def replicate_5)

lemma str_nat_two_digits: "10 \<le> n \<Longrightarrow> n < 100 \<Longrightarrow> str_nat n = [digit_char (n div 10), digit_char (n mod 10)]"
  by (subst str_nat.simps) (simp add: str_nat_small)

lemma str_nat_three_digits:
  "100 \<le> n \<Longrightarrow> n < 1000 \<Longrightarrow>
   str_nat n = [digit_char (n div 100), digit_char (n div 10 mod 10), digit_char (n mod 10)]"
  by (subst str_nat.simps) (simp add: str_nat_two_digits div_mult2_eq[symmetric])

lemma body_100_00: "decimal_body 2 10000 = ''100.00''"
  by (simp add: decimal_body_def zero_pad_def str_nat_small str_nat_three_digits digit_char_def)

lemma body_50_00: "decimal_body 2 5000 = ''50.00''"
  by (simp add: decimal_body_def zero_pad_def str_nat_small str_nat_two_digits digit_char_def)

lemma body_1_50: "decimal_body 2 150 = ''1.50''"
  by (simp add: decimal_body_def zero_pad_def str_nat_small str_nat_two_digits digit_char_def)

lemma body_5_00: "decimal_body 2 500 = ''5.00''"
  by (simp add: decimal_body_def zero_pad_def str_nat_small str_nat_two_digits digit_char_def)

lemma body_1_00: "decimal_body 2 100 = ''1.00''"
  by (simp add: decimal_body_def zero_pad_def str_nat_small str_nat_two_digits digit_char_def)

lemma body_2_00: "decimal_body 2 200 = ''2.00''"
  by (simp add: decimal_body_def zero_pad_def str_nat_small str_nat_two_digits digit_char_def)

lemma body_0_50: "decimal_body 2 50 = ''0.50''"
  by (simp add: decimal_body_def zero_pad_def str_nat_small str_nat_two_digits digit_char_def)

lemma text_0_02: "float_text CHR ''f'' 2 (Finite (5764607523034235 / 288230376151711744)) = ''0.02''"
  using format_f_eval[of "5764607523034235 / 288230376151711744" 2 2 False]
  by (simp add: body_0_02)

lemma text_100: "float_text CHR ''f'' 2 (Finite 100) = ''100.00''"
  using format_f_eval[of 100 2 10000 False] by (simp add: body_100_00)

lemma text_50: "float_text CHR ''f'' 2 (Finite 50) = ''50.00''"
  using format_f_eval[of 50 2 5000 False] by (simp add: body_50_00)

lemma text_1: "float_text CHR ''f'' 2 (Finite 1) = ''1.00''"
  using format_f_eval[of 1 2 100 False] by (simp add: body_1_00)

lemma text_2: "float_text CHR ''f'' 2 (Finite 2) = ''2.00''"
  using format_f_eval[of 2 2 200 False] by (simp add: body_2_00)

lemma text_half: "float_text CHR ''f'' 2 (Finite (1 / 2)) = ''0.50''"
  using format_f_eval[of "1 / 2" 2 50 False] by (simp add: body_0_50)

lemma text_2em6:
  "float_text CHR ''f'' 6 (Finite (4722366482869645 / 2361183241434822606848)) = ''0.000002''"
  using format_f_eval[of "4722366482869645 / 2361183241434822606848" 6 2 False]
  by (simp add: body_0_000002)

lemma text_150: "float_text CHR ''e'' 2 (Finite 150) = ''1.50e+02''"
  using format_e_eval[of 2 150 2 150 False]
  by (simp add: body_1_50 zero_pad_def str_nat_small digit_char_def)

lemma text_minus_50: "float_text CHR ''e'' 2 (Finite (- 50)) = ''-5.00e+01''"
  using format_e_eval[of 1 50 2 500 True]
  by (simp add: body_5_00 zero_pad_def str_nat_small digit_char_def)

lemma text_0_005:
  "float_text CHR ''e'' 2 (Finite (5764607523034235 / 1152921504606846976)) = ''5.00e-03''"
  using format_e_eval[of "- 3" "5764607523034235 / 1152921504606846976" 2 500 False]
  by (simp add: body_5_00 zero_pad_def str_nat_small digit_char_def)

section \<open>Properties of \<^verbatim>\<open>format_benchmark\<close>\<close>

lemma format_spec_ok:
  "0 \<le> precision \<Longrightarrow> precision \<le> 1000000 \<Longrightarrow>
   format_spec ty precision f = Inr ('' = '' @ float_text ty (nat precision) f)"
  by (simp add: format_spec_def INT_MAX_def PY_SSIZE_T_MAX_def)

lemma format_spec_negative:
  "precision < 0 \<Longrightarrow>
   format_spec ty precision f = Inl (ValueError ''Format specifier missing precision'')"
  by (simp add: format_spec_def)

lemma format_spec_too_big:
  "format_spec ty 2147483648 f = Inl (ValueError ''precision too big'')"
  by (simp add: format_spec_def INT_MAX_def PY_SSIZE_T_MAX_def)

lemma float_pow10_ok:
  assumes "0 \<le> precision" "precision \<le> 1000000"
  shows "\<exists>t. float_pow10 (- precision) = Inr t"
proof -
  have "\<not> (2 ^ 1024 - 2 ^ 970 \<le> \<bar>- precision\<bar>)" using assms by simp
  moreover have "\<not> 308 < - precision" using assms by simp
  ultimately show ?thesis by (simp add: float_pow10_def)
qed

lemma float_pow10_underflow: "e < - 323 \<Longrightarrow> \<bar>e\<bar> < 2 ^ 1024 - 2 ^ 970 \<Longrightarrow> float_pow10 e = Inr (Finite 0)"
  by (simp add: float_pow10_def)

lemma float_times2_zero: "float_times2 (Finite 0) = Finite 0"
  by (simp add: double_round_def)

lemma float_text_scientific:
  "is_finite f \<Longrightarrow> scientific_notation p (float_text CHR ''e'' p f)"
  by (cases f) (simp_all add: format_e_scientific)

lemma float_text_fixed:
  "is_finite f \<Longrightarrow> fixed_notation p (float_text CHR ''f'' p f)"
  by (cases f) (simp_all add: format_f_fixed)

lemma format_loop_single:
  assumes "to_float value = Inr f" "pow10 (- precision) = Inr t"
  shows "format_loop pow10 to_float precision 0 [(key, value)] [] =
           (case (if float_less f (float_times2 t) \<or> float_less (Finite 100) f
                  then format_spec CHR ''e'' precision f
                  else format_spec CHR ''f'' precision f) of
              Inl e \<Rightarrow> Inl e
            | Inr t \<Rightarrow> Inr (key @ t))"
  using assms by (simp split: sum.splits)

lemma format_benchmark_single:
  assumes "to_float value = Inr f" "float_pow10 (- precision) = Inr t" "float_times2 t = th"
    and "0 \<le> precision" "precision \<le> 1000000"
  shows "format_benchmark to_float [(key, value)] precision =
           Inr (key @ '' = ''
                @ float_text (if float_less f th \<or> float_less (Finite 100) f
                              then CHR ''e'' else CHR ''f'') (nat precision) f)"
proof -
  have "format_loop float_pow10 to_float precision 0 [(key, value)] [] =
          (case (if float_less f (float_times2 t) \<or> float_less (Finite 100) f
                 then format_spec CHR ''e'' precision f
                 else format_spec CHR ''f'' precision f) of
             Inl e \<Rightarrow> Inl e
           | Inr t \<Rightarrow> Inr (key @ t))"
    using assms(1,2) by (rule format_loop_single)
  then show ?thesis
    unfolding format_benchmark_def format_benchmark_pow_def assms(3)
    by (simp add: format_spec_ok[OF assms(4,5)])
qed

lemma format_loop_step:
  "format_loop pow10 to_float precision i (item # rest) acc =
     (case format_loop pow10 to_float precision 0 [item] [] of
        Inl e \<Rightarrow> Inl e
      | Inr t \<Rightarrow>
          format_loop pow10 to_float precision (Suc i) rest
            ((if i > 0 then acc @ '', '' else acc) @ t))"
  by (cases item) (simp split: sum.splits)

lemma all_or_first_error_length:
  "all_or_first_error rs = Inr xs \<Longrightarrow> length xs = length rs"
proof (induction rs arbitrary: xs)
  case Nil
  then show ?case by simp
next
  case (Cons r rs)
  then show ?case by (cases r) (auto split: sum.splits)
qed

lemma format_loop_join:
  "format_loop pow10 to_float precision i items acc =
     (case all_or_first_error
             (map (\<lambda>item. format_loop pow10 to_float precision 0 [item] []) items) of
        Inl e \<Rightarrow> Inl e
      | Inr texts \<Rightarrow>
          Inr (if items = [] then acc
               else (if i > 0 then acc @ '', '' else acc) @ join '', '' texts))"
proof (induction items arbitrary: i acc)
  case Nil
  show ?case by simp
next
  case (Cons item rest)
  show ?case
  proof (cases "format_loop pow10 to_float precision 0 [item] []")
    case (Inl e)
    then show ?thesis by (subst format_loop_step) simp
  next
    case (Inr t)
    show ?thesis
    proof (cases "all_or_first_error
                    (map (\<lambda>item. format_loop pow10 to_float precision 0 [item] []) rest)")
      case (Inl e)
      then show ?thesis using Inr
        by (subst format_loop_step) (simp add: Cons.IH)
    next
      case texts: (Inr texts)
      have "rest = [] \<longleftrightarrow> texts = []"
        using all_or_first_error_length[OF texts] by auto
      then show ?thesis using Inr texts
        by (subst format_loop_step) (cases texts; simp add: Cons.IH)
    qed
  qed
qed

lemma format_loop_conversion:
  assumes "0 \<le> precision" "precision \<le> 1000000" and "pow10 (- precision) = Inr t"
  shows "case find (\<lambda>(key, value). isl (to_float value)) items of
           None \<Rightarrow> (\<exists>out. format_loop pow10 to_float precision i items acc = Inr out)
         | Some (key, value) \<Rightarrow>
             format_loop pow10 to_float precision i items acc = Inl (projl (to_float value))"
proof (induction items arbitrary: i acc)
  case Nil
  show ?case by simp
next
  case (Cons item rest)
  obtain key "value" where item: "item = (key, value)" by (cases item)
  show ?case
  proof (cases "to_float value")
    case (Inl e)
    then show ?thesis by (simp add: item)
  next
    case (Inr x)
    then show ?thesis
      using Cons.IH[of "Suc i"]
      by (auto simp: item assms(3) format_spec_ok[OF assms(1,2)] Let_def split: option.splits)
  qed
qed

text \<open>
  Claim C1, as the code has it. For a value that converts to a finite float \<open>f\<close> and a
  precision from 0 to 1000000, the entry is \<^verbatim>\<open>key = number\<close>, where the number is in
  scientific notation with \<open>precision\<close> places exactly when \<open>f\<close> itself (not its absolute
  value) is below the float \<^verbatim>\<open>2. * 10.**(- precision)\<close> or strictly above \<open>100\<close>, and in
  fixed-point notation with \<open>precision\<close> places exactly when it is not. The threshold is the
  float \<open>float_times2 t\<close>, where \<open>t\<close> is what the power returns: the comparison is one of
  floats. The statement holds for every power function; \<^verbatim>\<open>format_benchmark\<close> is
  \<open>format_benchmark_pow float_pow10\<close>.
\<close>

theorem format_benchmark_notation:
  assumes "0 \<le> precision" "precision \<le> 1000000"
    and "to_float value = Inr f" "is_finite f"
    and "pow10 (- precision) = Inr t"
  shows "\<exists>number.
           format_benchmark_pow pow10 to_float [(key, value)] precision
             = Inr (key @ '' = '' @ number)
           \<and> (scientific_notation (nat precision) number
                 \<longleftrightarrow> (float_less f (float_times2 t) \<or> float_less (Finite 100) f))
           \<and> (fixed_notation (nat precision) number
                 \<longleftrightarrow> \<not> (float_less f (float_times2 t) \<or> float_less (Finite 100) f))"
proof (cases "float_less f (float_times2 t) \<or> float_less (Finite 100) f")
  case True
  let ?number = "float_text CHR ''e'' (nat precision) f"
  have "format_benchmark_pow pow10 to_float [(key, value)] precision
          = Inr (key @ '' = '' @ ?number)"
    unfolding format_benchmark_pow_def
    using True format_loop_single[of to_float "value" f pow10 precision t key, OF assms(3,5)]
    by (simp add: format_spec_ok[OF assms(1,2)])
  moreover have "scientific_notation (nat precision) ?number"
    using assms(4) by (rule float_text_scientific)
  moreover have "\<not> fixed_notation (nat precision) ?number"
    using scientific_has_e[OF float_text_scientific[OF assms(4)]] fixed_no_e by blast
  ultimately show ?thesis using True by blast
next
  case False
  let ?number = "float_text CHR ''f'' (nat precision) f"
  have "format_benchmark_pow pow10 to_float [(key, value)] precision
          = Inr (key @ '' = '' @ ?number)"
    unfolding format_benchmark_pow_def
    using False format_loop_single[of to_float "value" f pow10 precision t key, OF assms(3,5)]
    by (simp add: format_spec_ok[OF assms(1,2)])
  moreover have "fixed_notation (nat precision) ?number"
    using assms(4) by (rule float_text_fixed)
  moreover have "\<not> scientific_notation (nat precision) ?number"
    using fixed_no_e[OF float_text_fixed[OF assms(4)]] scientific_has_e by blast
  ultimately show ?thesis using False by blast
qed

text \<open>
  The theorem at \<open>150\<close> and at \<open>1/2\<close>, precision 2, with the power of the doubles: the
  threshold is the double \<open>0.02\<close>.
\<close>

theorem format_benchmark_notation_witness:
  "(0::int) \<le> 2 \<and> (2::int) \<le> 1000000
   \<and> py_float (PyFloat 150) = Inr (Finite 150) \<and> is_finite (Finite 150)
   \<and> py_float (PyFloat (1 / 2)) = Inr (Finite (1 / 2)) \<and> is_finite (Finite (1 / 2))
   \<and> float_pow10 (- 2) = Inr (Finite (5764607523034235 / 576460752303423488))
   \<and> (\<exists>number. format_benchmark py_float [(''x'', PyFloat 150)] 2 = Inr (''x = '' @ number)
         \<and> scientific_notation 2 number \<and> \<not> fixed_notation 2 number)
   \<and> (\<exists>number. format_benchmark py_float [(''x'', PyFloat (1 / 2))] 2 = Inr (''x = '' @ number)
         \<and> \<not> scientific_notation 2 number \<and> fixed_notation 2 number)"
proof -
  have a: "py_float (PyFloat 150) = Inr (Finite 150)"
    by (simp only: py_float.simps double_150)
  have b: "py_float (PyFloat (1 / 2)) = Inr (Finite (1 / 2))"
    by (simp only: py_float.simps double_half)
  have c: "float_pow10 (- 2) = Inr (Finite (5764607523034235 / 576460752303423488))"
    by (rule pow10_minus_2)
  have d: "float_less (Finite 150) (float_times2 (Finite (5764607523034235 / 576460752303423488)))
             \<or> float_less (Finite 100) (Finite 150)"
    by simp
  have e: "\<not> (float_less (Finite (1 / 2))
                  (float_times2 (Finite (5764607523034235 / 576460752303423488)))
               \<or> float_less (Finite 100) (Finite (1 / 2)))"
    unfolding threshold_2 by simp
  show ?thesis
    using format_benchmark_notation[of 2 py_float "PyFloat 150" "Finite 150" float_pow10
        "Finite (5764607523034235 / 576460752303423488)" "''x''"]
      format_benchmark_notation[of 2 py_float "PyFloat (1 / 2)" "Finite (1 / 2)" float_pow10
        "Finite (5764607523034235 / 576460752303423488)" "''x''"]
    unfolding format_benchmark_def
    using a b c d e by simp
qed

lemma single_0_02:
  "format_benchmark py_float [(''x'', PyFloat (2 / 100))] 2 = Inr ''x = 0.02''"
proof -
  have a: "py_float (PyFloat (2 / 100)) = Inr (Finite (5764607523034235 / 288230376151711744))"
    by (simp only: py_float.simps double_0_02)
  have "format_benchmark py_float [(''x'', PyFloat (2 / 100))] 2 =
          Inr (''x'' @ '' = ''
               @ float_text (if float_less (Finite (5764607523034235 / 288230376151711744)) (Finite (5764607523034235 / 288230376151711744))
                                \<or> float_less (Finite 100) (Finite (5764607523034235 / 288230376151711744))
                             then CHR ''e'' else CHR ''f'') (nat 2) (Finite (5764607523034235 / 288230376151711744)))"
    using a pow10_minus_2 threshold_2 by (rule format_benchmark_single) simp_all
  then show ?thesis
    using text_0_02 by simp
qed

lemma single_100:
  "format_benchmark py_float [(''x'', PyFloat 100)] 2 = Inr ''x = 100.00''"
proof -
  have a: "py_float (PyFloat 100) = Inr (Finite 100)"
    by (simp only: py_float.simps double_100)
  have "format_benchmark py_float [(''x'', PyFloat 100)] 2 =
          Inr (''x'' @ '' = ''
               @ float_text (if float_less (Finite 100) (Finite (5764607523034235 / 288230376151711744))
                                \<or> float_less (Finite 100) (Finite 100)
                             then CHR ''e'' else CHR ''f'') (nat 2) (Finite 100))"
    using a pow10_minus_2 threshold_2 by (rule format_benchmark_single) simp_all
  then show ?thesis
    using text_100 by simp
qed

lemma single_50:
  "format_benchmark py_float [(''x'', PyFloat 50)] 2 = Inr ''x = 50.00''"
proof -
  have a: "py_float (PyFloat 50) = Inr (Finite 50)"
    by (simp only: py_float.simps double_50)
  have "format_benchmark py_float [(''x'', PyFloat 50)] 2 =
          Inr (''x'' @ '' = ''
               @ float_text (if float_less (Finite 50) (Finite (5764607523034235 / 288230376151711744))
                                \<or> float_less (Finite 100) (Finite 50)
                             then CHR ''e'' else CHR ''f'') (nat 2) (Finite 50))"
    using a pow10_minus_2 threshold_2 by (rule format_benchmark_single) simp_all
  then show ?thesis
    using text_50 by simp
qed

lemma single_150:
  "format_benchmark py_float [(''x'', PyFloat 150)] 2 = Inr ''x = 1.50e+02''"
proof -
  have a: "py_float (PyFloat 150) = Inr (Finite 150)"
    by (simp only: py_float.simps double_150)
  have "format_benchmark py_float [(''x'', PyFloat 150)] 2 =
          Inr (''x'' @ '' = ''
               @ float_text (if float_less (Finite 150) (Finite (5764607523034235 / 288230376151711744))
                                \<or> float_less (Finite 100) (Finite 150)
                             then CHR ''e'' else CHR ''f'') (nat 2) (Finite 150))"
    using a pow10_minus_2 threshold_2 by (rule format_benchmark_single) simp_all
  then show ?thesis
    using text_150 by simp
qed

lemma single_0_005:
  "format_benchmark py_float [(''x'', PyFloat (5 / 1000))] 2 = Inr ''x = 5.00e-03''"
proof -
  have a: "py_float (PyFloat (5 / 1000)) = Inr (Finite (5764607523034235 / 1152921504606846976))"
    by (simp only: py_float.simps double_0_005)
  have "format_benchmark py_float [(''x'', PyFloat (5 / 1000))] 2 =
          Inr (''x'' @ '' = ''
               @ float_text (if float_less (Finite (5764607523034235 / 1152921504606846976)) (Finite (5764607523034235 / 288230376151711744))
                                \<or> float_less (Finite 100) (Finite (5764607523034235 / 1152921504606846976))
                             then CHR ''e'' else CHR ''f'') (nat 2) (Finite (5764607523034235 / 1152921504606846976)))"
    using a pow10_minus_2 threshold_2 by (rule format_benchmark_single) simp_all
  then show ?thesis
    using text_0_005 by simp
qed

lemma single_minus_50:
  "format_benchmark py_float [(''x'', PyFloat (- 50))] 2 = Inr ''x = -5.00e+01''"
proof -
  have a: "py_float (PyFloat (- 50)) = Inr (Finite (- 50))"
    by (simp only: py_float.simps double_minus_50)
  have "format_benchmark py_float [(''x'', PyFloat (- 50))] 2 =
          Inr (''x'' @ '' = ''
               @ float_text (if float_less (Finite (- 50)) (Finite (5764607523034235 / 288230376151711744))
                                \<or> float_less (Finite 100) (Finite (- 50))
                             then CHR ''e'' else CHR ''f'') (nat 2) (Finite (- 50)))"
    using a pow10_minus_2 threshold_2 by (rule format_benchmark_single) simp_all
  then show ?thesis
    using text_minus_50 by simp
qed

lemma single_2em6:
  "format_benchmark py_float [(''x'', PyFloat (2 / 1000000))] 6 = Inr ''x = 0.000002''"
proof -
  have a: "py_float (PyFloat (2 / 1000000)) = Inr (Finite (4722366482869645 / 2361183241434822606848))"
    by (simp only: py_float.simps double_2em6)
  have "format_benchmark py_float [(''x'', PyFloat (2 / 1000000))] 6 =
          Inr (''x'' @ '' = ''
               @ float_text (if float_less (Finite (4722366482869645 / 2361183241434822606848)) (Finite (4722366482869645 / 2361183241434822606848))
                                \<or> float_less (Finite 100) (Finite (4722366482869645 / 2361183241434822606848))
                             then CHR ''e'' else CHR ''f'') (nat 6) (Finite (4722366482869645 / 2361183241434822606848)))"
    using a pow10_minus_6 threshold_6 by (rule format_benchmark_single) simp_all
  then show ?thesis
    using text_2em6 by simp
qed

lemma single_inf:
  "format_benchmark py_float [(''x'', PyFloat (10 ^ 400))] 2 = Inr ''x = inf''"
proof -
  have a: "py_float (PyFloat (10 ^ 400)) = Inr (PosInf)"
    by (simp only: py_float.simps double_inf)
  have "format_benchmark py_float [(''x'', PyFloat (10 ^ 400))] 2 =
          Inr (''x'' @ '' = ''
               @ float_text (if float_less (PosInf) (Finite (5764607523034235 / 288230376151711744))
                                \<or> float_less (Finite 100) (PosInf)
                             then CHR ''e'' else CHR ''f'') (nat 2) (PosInf))"
    using a pow10_minus_2 threshold_2 by (rule format_benchmark_single) simp_all
  then show ?thesis
    by simp
qed

lemma single_a:
  "format_benchmark py_float [(''a'', PyFloat 1)] 2 = Inr ''a = 1.00''"
proof -
  have a: "py_float (PyFloat 1) = Inr (Finite 1)"
    by (simp only: py_float.simps double_1)
  have "format_benchmark py_float [(''a'', PyFloat 1)] 2 =
          Inr (''a'' @ '' = ''
               @ float_text (if float_less (Finite 1) (Finite (5764607523034235 / 288230376151711744))
                                \<or> float_less (Finite 100) (Finite 1)
                             then CHR ''e'' else CHR ''f'') (nat 2) (Finite 1))"
    using a pow10_minus_2 threshold_2 by (rule format_benchmark_single) simp_all
  then show ?thesis
    using text_1 by simp
qed

lemma single_b:
  "format_benchmark py_float [(''b'', PyFloat 2)] 2 = Inr ''b = 2.00''"
proof -
  have a: "py_float (PyFloat 2) = Inr (Finite 2)"
    by (simp only: py_float.simps double_2)
  have "format_benchmark py_float [(''b'', PyFloat 2)] 2 =
          Inr (''b'' @ '' = ''
               @ float_text (if float_less (Finite 2) (Finite (5764607523034235 / 288230376151711744))
                                \<or> float_less (Finite 100) (Finite 2)
                             then CHR ''e'' else CHR ''f'') (nat 2) (Finite 2))"
    using a pow10_minus_2 threshold_2 by (rule format_benchmark_single) simp_all
  then show ?thesis
    using text_2 by simp
qed

lemma negative_precision:
  assumes "precision < 0" "to_float value = Inr f" "float_pow10 (- precision) = Inr t"
  shows "format_benchmark to_float ((key, value) # rest) precision
           = Inl (ValueError ''Format specifier missing precision'')"
  using assms by (simp add: format_benchmark_def format_benchmark_pow_def format_spec_negative)

lemma float_pow10_1: "float_pow10 (- (- 1)) = Inr (double_round 10)"
  by (simp add: float_pow10_def)

lemma precision_too_big:
  assumes "to_float value = Inr f"
  shows "format_benchmark to_float ((key, value) # rest) 2147483648
           = Inl (ValueError ''precision too big'')"
proof -
  have "float_pow10 (- 2147483648) = Inr (Finite 0)"
    by (rule float_pow10_underflow) simp_all
  then show ?thesis
    using assms
    by (simp add: format_benchmark_def format_benchmark_pow_def format_spec_too_big)
qed

text \<open>
  Claim C1 as stated fails. The value \<open>-50\<close> has an absolute value between \<open>0.02\<close> and
  \<open>100\<close>, and is printed in scientific notation. The float \<^verbatim>\<open>2e-06\<close> is below the number
  \<open>2 * 10 ^ (- 6)\<close>, but not below the float \<^verbatim>\<open>2. * 10.**(-6)\<close>, which it equals: with the
  precision 6 it is printed in fixed-point notation. An infinity is printed in neither
  notation. With the precision \<open>-1\<close>, and with the precision \<open>2 ^ 31\<close>, nothing is printed
  at all.
\<close>

theorem format_benchmark_notation_counterexample:
  "format_benchmark py_float [(''x'', PyFloat (- 50))] 2 = Inr ''x = -5.00e+01''
   \<and> scientific_notation 2 ''-5.00e+01''
   \<and> \<not> (\<bar>- 50 :: rat\<bar> < 2 * 10 powi (- 2) \<or> 100 < \<bar>- 50 :: rat\<bar>)
   \<and> py_float (PyFloat (2 / 1000000))
       = Inr (Finite (4722366482869645 / 2361183241434822606848))
   \<and> \<bar>4722366482869645 / 2361183241434822606848 :: rat\<bar> < 2 * 10 powi (- 6)
   \<and> format_benchmark py_float [(''x'', PyFloat (2 / 1000000))] 6 = Inr ''x = 0.000002''
   \<and> fixed_notation 6 ''0.000002''
   \<and> format_benchmark py_float [(''x'', PyFloat (10 ^ 400))] 2 = Inr ''x = inf''
   \<and> \<not> scientific_notation 2 ''inf'' \<and> \<not> fixed_notation 2 ''inf''
   \<and> format_benchmark py_float [(''x'', PyFloat 50)] (- 1)
       = Inl (ValueError ''Format specifier missing precision'')
   \<and> format_benchmark py_float [(''x'', PyFloat 50)] 2147483648
       = Inl (ValueError ''precision too big'')"
proof -
  have "format_benchmark py_float [(''x'', PyFloat (- 50))] 2 = Inr ''x = -5.00e+01''"
    by (rule single_minus_50)
  moreover have "scientific_notation 2 ''-5.00e+01''"
    by code_simp
  moreover have "\<not> (\<bar>- 50 :: rat\<bar> < 2 * 10 powi (- 2) \<or> 100 < \<bar>- 50 :: rat\<bar>)"
    by simp
  moreover have "py_float (PyFloat (2 / 1000000))
       = Inr (Finite (4722366482869645 / 2361183241434822606848))"
    by (simp only: py_float.simps double_2em6)
  moreover have "\<bar>4722366482869645 / 2361183241434822606848 :: rat\<bar> < 2 * 10 powi (- 6)"
    by simp
  moreover have
    "format_benchmark py_float [(''x'', PyFloat (2 / 1000000))] 6 = Inr ''x = 0.000002''"
    by (rule single_2em6)
  moreover have "fixed_notation 6 ''0.000002''"
    by code_simp
  moreover have "format_benchmark py_float [(''x'', PyFloat (10 ^ 400))] 2 = Inr ''x = inf''"
    by (rule single_inf)
  moreover have "\<not> scientific_notation 2 ''inf''"
    by code_simp
  moreover have "\<not> fixed_notation 2 ''inf''"
    by code_simp
  moreover have "format_benchmark py_float [(''x'', PyFloat 50)] (- 1)
       = Inl (ValueError ''Format specifier missing precision'')"
    by (rule negative_precision[OF _ _ float_pow10_1]) simp_all
  moreover have "format_benchmark py_float [(''x'', PyFloat 50)] 2147483648
       = Inl (ValueError ''precision too big'')"
    by (rule precision_too_big) simp
  ultimately show ?thesis by blast
qed

text \<open>
  Claim C4. With precision 2, the values \<open>0.02\<close> and \<open>100\<close> are printed in fixed-point
  notation, \<open>50\<close> is printed as \<^verbatim>\<open>x = 50.00\<close>, and \<open>150\<close> is printed in scientific notation; so
  is \<open>0.005\<close>, which is below \<open>0.02\<close>. The value \<open>0.02\<close> is the double nearest to \<open>2 / 100\<close>, and
  so is the threshold \<^verbatim>\<open>2. * 10.**(-2)\<close>.
\<close>

theorem format_benchmark_boundaries:
  "format_benchmark py_float [(''x'', PyFloat (2 / 100))] 2 = Inr ''x = 0.02''
   \<and> format_benchmark py_float [(''x'', PyFloat 100)] 2 = Inr ''x = 100.00''
   \<and> format_benchmark py_float [(''x'', PyFloat 50)] 2 = Inr ''x = 50.00''
   \<and> format_benchmark py_float [(''x'', PyFloat 150)] 2 = Inr ''x = 1.50e+02''
   \<and> format_benchmark py_float [(''x'', PyFloat (5 / 1000))] 2 = Inr ''x = 5.00e-03''
   \<and> fixed_notation 2 ''0.02'' \<and> fixed_notation 2 ''100.00'' \<and> fixed_notation 2 ''50.00''
   \<and> scientific_notation 2 ''1.50e+02'' \<and> scientific_notation 2 ''5.00e-03''"
proof -
  have "format_benchmark py_float [(''x'', PyFloat (2 / 100))] 2 = Inr ''x = 0.02''"
    by (rule single_0_02)
  moreover have "format_benchmark py_float [(''x'', PyFloat 100)] 2 = Inr ''x = 100.00''"
    by (rule single_100)
  moreover have "format_benchmark py_float [(''x'', PyFloat 50)] 2 = Inr ''x = 50.00''"
    by (rule single_50)
  moreover have "format_benchmark py_float [(''x'', PyFloat 150)] 2 = Inr ''x = 1.50e+02''"
    by (rule single_150)
  moreover have "format_benchmark py_float [(''x'', PyFloat (5 / 1000))] 2 = Inr ''x = 5.00e-03''"
    by (rule single_0_005)
  moreover have "scientific_notation 2 ''5.00e-03''" by code_simp
  moreover have "fixed_notation 2 ''0.02''" by code_simp
  moreover have "fixed_notation 2 ''100.00''" by code_simp
  moreover have "fixed_notation 2 ''50.00''" by code_simp
  moreover have "scientific_notation 2 ''1.50e+02''" by code_simp
  ultimately show ?thesis by blast
qed

text \<open>
  Claim C6. The output for a mapping is the outputs for its entries, each formatted on
  its own, in iteration order and joined with \<^verbatim>\<open>", "\<close>: one string. (When an entry raises,
  the first such exception is the outcome.)
\<close>

theorem format_benchmark_join:
  "format_benchmark to_float parameters precision =
     (case all_or_first_error
             (map (\<lambda>item. format_benchmark to_float [item] precision) parameters) of
        Inl e \<Rightarrow> Inl e
      | Inr texts \<Rightarrow> Inr (join '', '' texts))"
  unfolding format_benchmark_def format_benchmark_pow_def
  by (subst format_loop_join) (auto split: sum.splits)

text \<open>
  The theorem at the mapping \<^verbatim>\<open>{"a": 1.0, "b": 2.0}\<close>.
\<close>

theorem format_benchmark_join_witness:
  "format_benchmark py_float [(''a'', PyFloat 1), (''b'', PyFloat 2)] 2
     = Inr (join '', '' [''a = 1.00'', ''b = 2.00''])"
  using format_benchmark_join[of py_float "[(''a'', PyFloat 1), (''b'', PyFloat 2)]" 2]
  by (simp add: single_a single_b)

text \<open>
  Claim C7, as the code has it. For a precision from 0 to 1000000: when some value of the
  mapping does not convert, the call fails with the exception that \<^verbatim>\<open>float\<close> raised on the
  first such value in iteration order, unchanged; when every value converts, the call
  returns a string.
\<close>

theorem format_benchmark_conversion:
  assumes "0 \<le> precision" "precision \<le> 1000000"
  shows "case find (\<lambda>(key, value). isl (to_float value)) parameters of
           None \<Rightarrow> (\<exists>out. format_benchmark to_float parameters precision = Inr out)
         | Some (key, value) \<Rightarrow>
             format_benchmark to_float parameters precision = Inl (projl (to_float value))"
proof -
  obtain t where "float_pow10 (- precision) = Inr t"
    using float_pow10_ok[OF assms] by blast
  then show ?thesis
    unfolding format_benchmark_def format_benchmark_pow_def
    by (rule format_loop_conversion[OF assms])
qed

text \<open>
  The theorem at a mapping whose second value is \<^verbatim>\<open>None\<close>, and at one whose values all
  convert.
\<close>

theorem format_benchmark_conversion_witness:
  "(0::int) \<le> 2 \<and> (2::int) \<le> 1000000
   \<and> format_benchmark py_float [(''a'', PyFloat 1), (''b'', PyNone), (''c'', PyInt 3)] 2
       = Inl (TypeError (''float() argument must be a string or a real number, not ''
                         @ [CHR 0x27] @ ''NoneType'' @ [CHR 0x27]))
   \<and> (\<exists>out. format_benchmark py_float [(''a'', PyFloat 1), (''c'', PyInt 3)] 2 = Inr out)"
  using format_benchmark_conversion[of 2 py_float
      "[(''a'', PyFloat 1), (''b'', PyNone), (''c'', PyInt 3)]"]
    format_benchmark_conversion[of 2 py_float "[(''a'', PyFloat 1), (''c'', PyInt 3)]"]
  by simp

text \<open>
  Claim C7 as stated fails for a negative precision and for a precision above the
  largest C \<open>int\<close>: a mapping whose values all convert raises, and a mapping with a value
  that does not convert raises the exception of \<^verbatim>\<open>format\<close>, before \<^verbatim>\<open>float\<close> is called on that
  value.
\<close>

theorem format_benchmark_conversion_counterexample:
  "format_benchmark py_float [(''x'', PyFloat 1)] (- 1)
     = Inl (ValueError ''Format specifier missing precision'')
   \<and> format_benchmark py_float [(''x'', PyFloat 1)] 2147483648
     = Inl (ValueError ''precision too big'')
   \<and> find (\<lambda>(key, value). isl (py_float value)) [(''x'', PyFloat 1)] = None
   \<and> format_benchmark py_float [(''x'', PyFloat 1), (''y'', PyNone)] (- 1)
     = Inl (ValueError ''Format specifier missing precision'')
   \<and> format_benchmark py_float [(''x'', PyFloat 1), (''y'', PyNone)] 2147483648
     = Inl (ValueError ''precision too big'')
   \<and> isl (py_float PyNone)"
proof -
  have "format_benchmark py_float [(''x'', PyFloat 1)] (- 1)
     = Inl (ValueError ''Format specifier missing precision'')"
    by (rule negative_precision[OF _ _ float_pow10_1]) simp_all
  moreover have "format_benchmark py_float [(''x'', PyFloat 1)] 2147483648
     = Inl (ValueError ''precision too big'')"
    by (rule precision_too_big) simp
  moreover have "find (\<lambda>(key, value). isl (py_float value)) [(''x'', PyFloat 1)] = None"
    by simp
  moreover have "format_benchmark py_float [(''x'', PyFloat 1), (''y'', PyNone)] (- 1)
     = Inl (ValueError ''Format specifier missing precision'')"
    by (rule negative_precision[OF _ _ float_pow10_1]) simp_all
  moreover have "format_benchmark py_float [(''x'', PyFloat 1), (''y'', PyNone)] 2147483648
     = Inl (ValueError ''precision too big'')"
    by (rule precision_too_big) simp
  moreover have "isl (py_float PyNone)"
    by simp
  ultimately show ?thesis by blast
qed

text \<open>
  Claim C9. For the empty mapping the output is the empty string, whatever the precision
  and whatever \<^verbatim>\<open>float\<close> does.
\<close>

theorem format_benchmark_empty: "format_benchmark to_float [] precision = Inr []"
  by (simp add: format_benchmark_def format_benchmark_pow_def)

section \<open>Properties of \<^verbatim>\<open>call_command\<close>\<close>

lemma sublist_middle: "sublist xs (pre @ xs @ post)"
  by (rule sublist_appendI)

lemma sublist_end: "sublist xs (pre @ xs)"
  using sublist_appendI[of xs pre "[]"] by simp

text \<open>
  Claim C2, as the code has it. With a log file: when \<^verbatim>\<open>io.open\<close> raises, that exception is
  the outcome; otherwise the call returns 0 when the command exits with code 0, and raises
  \<open>RuntimeError\<close> when it exits with another code, the message holding the command, the
  exit code after \<^verbatim>\<open>returned exit code\<close>, and the path of the log file. Without a log file:
  the call returns 0 when the command exits with code 0, and raises \<open>RuntimeError\<close> when it
  exits with another code, the message holding the command, the exit code, and the
  representations of the bytes captured from standard output and from standard error,
  each under its heading.
\<close>

theorem call_command_result:
  "case log_file of
     Some file \<Rightarrow>
       (case open_log file of
          Some e \<Rightarrow> call_command popen open_log cmd log_file = Inl e
        | None \<Rightarrow>
            (if returncode (popen cmd) = 0
             then call_command popen open_log cmd log_file = Inr 0
             else (\<exists>msg. call_command popen open_log cmd log_file = Inl (RuntimeError msg)
                     \<and> sublist (''Calling command '' @ cmd) msg
                     \<and> sublist ('' returned exit code '' @ str_int (returncode (popen cmd))
                                 @ ''.'') msg
                     \<and> sublist (''Output in file '' @ file @ ''.'') msg)))
   | None \<Rightarrow>
       (if returncode (popen cmd) = 0
        then call_command popen open_log cmd log_file = Inr 0
        else (\<exists>msg. call_command popen open_log cmd log_file = Inl (RuntimeError msg)
                \<and> sublist (''Calling command '' @ cmd) msg
                \<and> sublist ('' returned exit code '' @ str_int (returncode (popen cmd))
                            @ ''.'') msg
                \<and> sublist (''Std output:'' @ [CHR 0x0A, CHR 0x0A]
                            @ bytes_repr (out (popen cmd))) msg
                \<and> sublist (''Error output:'' @ [CHR 0x0A, CHR 0x0A]
                            @ bytes_repr (err (popen cmd))) msg))"
proof (cases log_file)
  case None
  show ?thesis
  proof (cases "returncode (popen cmd) = 0")
    case True
    then show ?thesis using None by (simp add: call_command_def Let_def)
  next
    case False
    let ?code = "str_int (returncode (popen cmd))"
    let ?msg = "''Calling command '' @ cmd @ '' returned exit code '' @ ?code
                  @ [CHR ''.'', CHR 0x0A, CHR 0x0A] @ ''Std output:'' @ [CHR 0x0A, CHR 0x0A]
                  @ bytes_repr (out (popen cmd)) @ ''Error output:'' @ [CHR 0x0A, CHR 0x0A]
                  @ bytes_repr (err (popen cmd))"
    have "call_command popen open_log cmd log_file = Inl (RuntimeError ?msg)"
      using False None by (simp add: call_command_def Let_def)
    moreover have "sublist (''Calling command '' @ cmd) ?msg"
      using sublist_middle[of "''Calling command '' @ cmd" "[]"] by simp
    moreover have "sublist ('' returned exit code '' @ ?code @ ''.'') ?msg"
      using sublist_middle[of "'' returned exit code '' @ ?code @ ''.''"
          "''Calling command '' @ cmd"] by simp
    moreover have "sublist (''Std output:'' @ [CHR 0x0A, CHR 0x0A]
                            @ bytes_repr (out (popen cmd))) ?msg"
      using sublist_middle[of "''Std output:'' @ [CHR 0x0A, CHR 0x0A]
                                 @ bytes_repr (out (popen cmd))"
          "''Calling command '' @ cmd @ '' returned exit code '' @ ?code
             @ [CHR ''.'', CHR 0x0A, CHR 0x0A]"] by simp
    moreover have "sublist (''Error output:'' @ [CHR 0x0A, CHR 0x0A]
                            @ bytes_repr (err (popen cmd))) ?msg"
      using sublist_end[of "''Error output:'' @ [CHR 0x0A, CHR 0x0A]
                              @ bytes_repr (err (popen cmd))"
          "''Calling command '' @ cmd @ '' returned exit code '' @ ?code
             @ [CHR ''.'', CHR 0x0A, CHR 0x0A] @ ''Std output:'' @ [CHR 0x0A, CHR 0x0A]
             @ bytes_repr (out (popen cmd))"] by simp
    ultimately show ?thesis using False None by auto
  qed
next
  case (Some path)
  show ?thesis
  proof (cases "open_log path")
    case e: (Some e)
    then show ?thesis using Some by (simp add: call_command_def)
  next
    case opened: None
    show ?thesis
    proof (cases "returncode (popen cmd) = 0")
      case True
      then show ?thesis using Some opened by (simp add: call_command_def Let_def)
    next
      case False
      let ?code = "str_int (returncode (popen cmd))"
      let ?msg = "''Calling command '' @ cmd @ '' returned exit code '' @ ?code
                    @ ''. Output in file '' @ path @ ''.''"
      have "call_command popen open_log cmd log_file = Inl (RuntimeError ?msg)"
        using False Some opened by (simp add: call_command_def Let_def)
      moreover have "sublist (''Calling command '' @ cmd) ?msg"
        using sublist_middle[of "''Calling command '' @ cmd" "[]"] by simp
      moreover have "sublist ('' returned exit code '' @ ?code @ ''.'') ?msg"
        using sublist_middle[of "'' returned exit code '' @ ?code @ ''.''"
            "''Calling command '' @ cmd"] by simp
      moreover have "sublist (''Output in file '' @ path @ ''.'') ?msg"
        using sublist_end[of "''Output in file '' @ path @ ''.''"
            "''Calling command '' @ cmd @ '' returned exit code '' @ ?code @ ''. ''"] by simp
      ultimately show ?thesis using False Some opened by auto
    qed
  qed
qed

lemma str_int_1: "str_int 1 = ''1''"
  by (simp add: str_int_def str_nat.simps digit_char_def)

lemma bytes_repr_hello:
  "bytes_repr (''hello'' @ [CHR 0x0A])
     = [CHR ''b'', CHR 0x27] @ ''hello'' @ [CHR 0x5C, CHR ''n'', CHR 0x27]"
  by (simp add: bytes_repr_def escape_byte_def Let_def)

lemma bytes_repr_empty: "bytes_repr [] = [CHR ''b'', CHR 0x27, CHR 0x27]"
  by (simp add: bytes_repr_def Let_def)

text \<open>
  The theorem at \<^verbatim>\<open>true\<close>, which exits with 0, and at \<^verbatim>\<open>echo hello; false\<close>, which writes a
  line to standard output and exits with 1: without a log file, with the log file
  \<^verbatim>\<open>run.log\<close>, and with a log file that cannot be opened.
\<close>

theorem call_command_result_witness:
  "call_command (\<lambda>cmd. \<lparr>returncode = 0, out = [], err = []\<rparr>) (\<lambda>file. None) ''true'' None
     = Inr 0
   \<and> (\<exists>msg. call_command (\<lambda>cmd. \<lparr>returncode = 1, out = ''hello'' @ [CHR 0x0A], err = []\<rparr>)
               (\<lambda>file. None) ''echo hello; false'' None = Inl (RuntimeError msg)
         \<and> sublist ''Calling command echo hello; false'' msg
         \<and> sublist '' returned exit code 1.'' msg
         \<and> sublist (''Std output:'' @ [CHR 0x0A, CHR 0x0A, CHR ''b'', CHR 0x27] @ ''hello''
                     @ [CHR 0x5C, CHR ''n'', CHR 0x27]) msg
         \<and> sublist (''Error output:'' @ [CHR 0x0A, CHR 0x0A, CHR ''b'', CHR 0x27, CHR 0x27]) msg)
   \<and> (\<exists>msg. call_command (\<lambda>cmd. \<lparr>returncode = 1, out = [], err = []\<rparr>)
               (\<lambda>file. None) ''echo hello; false'' (Some ''run.log'') = Inl (RuntimeError msg)
         \<and> sublist ''Calling command echo hello; false'' msg
         \<and> sublist '' returned exit code 1.'' msg
         \<and> sublist ''Output in file run.log.'' msg)
   \<and> call_command (\<lambda>cmd. \<lparr>returncode = 0, out = [], err = []\<rparr>)
        (\<lambda>file. Some (FileNotFoundError file)) ''true'' (Some ''missing/run.log'')
        = Inl (FileNotFoundError ''missing/run.log'')"
  using call_command_result[where log_file = None and open_log = "\<lambda>file. None"
        and popen = "\<lambda>cmd. \<lparr>returncode = 0, out = [], err = []\<rparr>" and cmd = "''true''"]
    call_command_result[where log_file = None and open_log = "\<lambda>file. None"
        and popen = "\<lambda>cmd. \<lparr>returncode = 1, out = ''hello'' @ [CHR 0x0A], err = []\<rparr>"
        and cmd = "''echo hello; false''"]
    call_command_result[where log_file = "Some ''run.log''" and open_log = "\<lambda>file. None"
        and popen = "\<lambda>cmd. \<lparr>returncode = 1, out = [], err = []\<rparr>"
        and cmd = "''echo hello; false''"]
    call_command_result[where log_file = "Some ''missing/run.log''"
        and open_log = "\<lambda>file. Some (FileNotFoundError file)"
        and popen = "\<lambda>cmd. \<lparr>returncode = 0, out = [], err = []\<rparr>" and cmd = "''true''"]
    str_int_1 bytes_repr_hello bytes_repr_empty
  by simp

text \<open>
  Claim C2 as stated fails in two ways. The message does not hold the captured output as
  text: for the output \<^verbatim>\<open>hello\<close> and a newline it holds \<^verbatim>\<open>b'hello\n'\<close>, with a backslash and
  the letter \<^verbatim>\<open>n\<close>, in which the output itself does not occur. And when the log file cannot be
  opened the call raises the exception of \<^verbatim>\<open>io.open\<close>, which is no \<open>RuntimeError\<close>, also for a
  command that would exit with code 0.
\<close>

theorem call_command_result_counterexample:
  "call_command (\<lambda>cmd. \<lparr>returncode = 1, out = ''hello'' @ [CHR 0x0A], err = []\<rparr>)
     (\<lambda>file. None) ''echo hello; false'' None
     = Inl (RuntimeError
             (''Calling command echo hello; false returned exit code 1.''
              @ [CHR 0x0A, CHR 0x0A] @ ''Std output:'' @ [CHR 0x0A, CHR 0x0A]
              @ [CHR ''b'', CHR 0x27] @ ''hello'' @ [CHR 0x5C, CHR ''n'', CHR 0x27]
              @ ''Error output:'' @ [CHR 0x0A, CHR 0x0A] @ [CHR ''b'', CHR 0x27, CHR 0x27]))
   \<and> \<not> sublist (''hello'' @ [CHR 0x0A])
         (''Calling command echo hello; false returned exit code 1.''
          @ [CHR 0x0A, CHR 0x0A] @ ''Std output:'' @ [CHR 0x0A, CHR 0x0A]
          @ [CHR ''b'', CHR 0x27] @ ''hello'' @ [CHR 0x5C, CHR ''n'', CHR 0x27]
          @ ''Error output:'' @ [CHR 0x0A, CHR 0x0A] @ [CHR ''b'', CHR 0x27, CHR 0x27])
   \<and> call_command (\<lambda>cmd. \<lparr>returncode = 0, out = [], err = []\<rparr>)
        (\<lambda>file. Some (FileNotFoundError file)) ''true'' (Some ''missing/run.log'')
        = Inl (FileNotFoundError ''missing/run.log'')"
proof -
  have "call_command (\<lambda>cmd. \<lparr>returncode = 1, out = ''hello'' @ [CHR 0x0A], err = []\<rparr>)
     (\<lambda>file. None) ''echo hello; false'' None
     = Inl (RuntimeError
             (''Calling command echo hello; false returned exit code 1.''
              @ [CHR 0x0A, CHR 0x0A] @ ''Std output:'' @ [CHR 0x0A, CHR 0x0A]
              @ [CHR ''b'', CHR 0x27] @ ''hello'' @ [CHR 0x5C, CHR ''n'', CHR 0x27]
              @ ''Error output:'' @ [CHR 0x0A, CHR 0x0A] @ [CHR ''b'', CHR 0x27, CHR 0x27]))"
    using str_int_1 bytes_repr_hello bytes_repr_empty by (simp add: call_command_def)
  moreover have "\<not> sublist (''hello'' @ [CHR 0x0A])
         (''Calling command echo hello; false returned exit code 1.''
          @ [CHR 0x0A, CHR 0x0A] @ ''Std output:'' @ [CHR 0x0A, CHR 0x0A]
          @ [CHR ''b'', CHR 0x27] @ ''hello'' @ [CHR 0x5C, CHR ''n'', CHR 0x27]
          @ ''Error output:'' @ [CHR 0x0A, CHR 0x0A] @ [CHR ''b'', CHR 0x27, CHR 0x27])"
    by code_simp
  moreover have "call_command (\<lambda>cmd. \<lparr>returncode = 0, out = [], err = []\<rparr>)
        (\<lambda>file. Some (FileNotFoundError file)) ''true'' (Some ''missing/run.log'')
        = Inl (FileNotFoundError ''missing/run.log'')"
    by (simp add: call_command_def)
  ultimately show ?thesis by blast
qed

section \<open>Properties of \<^verbatim>\<open>os.mkdir\<close> and \<^verbatim>\<open>os.makedirs\<close>\<close>

lemma mkdir_cases:
  assumes "mkdir name fs = (r, fs')"
  shows "(r = Inr () \<and> fs name = None \<and> fs' = fs(name \<mapsto> Dir))
         \<or> (\<exists>e. r = Inl e \<and> is_OSError e \<and> message e = path_str name \<and> fs' = fs)"
  using assms by (auto simp: mkdir_def split: if_splits option.splits node.splits)

lemma mkdir_le: "mkdir name fs = (r, fs') \<Longrightarrow> fs \<subseteq>\<^sub>m fs'"
  by (drule mkdir_cases) (auto simp: map_le_def)

lemma mkdir_frame: "mkdir name fs = (r, fs') \<Longrightarrow> q \<noteq> name \<Longrightarrow> fs' q = fs q"
  by (drule mkdir_cases) auto

lemma mkdir_made: "mkdir name fs = (Inr u, fs') \<Longrightarrow> fs' name = Some Dir"
  by (drule mkdir_cases) auto

lemma mkdir_error:
  "mkdir name fs = (Inl e, fs') \<Longrightarrow> is_OSError e \<and> message e = path_str name \<and> fs' = fs"
  by (drule mkdir_cases) auto

lemma makedirs_unfold:
  "makedirs name fs =
     (if butlast name \<noteq> [] \<and> name \<noteq> [] \<and> \<not> path_exists fs (butlast name)
      then (case makedirs (butlast name) fs of
              (Inl (FileExistsError m), fs') \<Rightarrow> mkdir name fs'
            | (Inl e, fs') \<Rightarrow> (Inl e, fs')
            | (Inr u, fs') \<Rightarrow> mkdir name fs')
      else mkdir name fs)"
  by (subst makedirs.simps) (simp add: Let_def)

lemma makedirs_base:
  assumes "\<not> (butlast name \<noteq> [] \<and> name \<noteq> [] \<and> \<not> path_exists fs (butlast name))"
  shows "makedirs name fs = mkdir name fs"
  by (subst makedirs_unfold) (rule if_not_P[OF assms])

text \<open>
  The recursive branch either stops with the exception of the call for the parent, or goes
  on to \<^verbatim>\<open>mkdir\<close> in the state that call left.
\<close>

lemma makedirs_rec_cases:
  assumes "butlast name \<noteq> []" "name \<noteq> []" "\<not> path_exists fs (butlast name)"
    and "makedirs name fs = (r, fs')"
  obtains (stop) e where "makedirs (butlast name) fs = (Inl e, fs')" "r = Inl e"
  | (go) r1 fs1 where "makedirs (butlast name) fs = (r1, fs1)" "mkdir name fs1 = (r, fs')"
proof -
  obtain r1 fs1 where h: "makedirs (butlast name) fs = (r1, fs1)"
    by (cases "makedirs (butlast name) fs")
  from assms(4) have "(case (r1, fs1) of
              (Inl (FileExistsError m), fs') \<Rightarrow> mkdir name fs'
            | (Inl e, fs') \<Rightarrow> (Inl e, fs')
            | (Inr u, fs') \<Rightarrow> mkdir name fs') = (r, fs')"
    using assms(1-3) by (subst (asm) makedirs_unfold) (simp add: h)
  then show thesis
    using h by (cases r1) (auto split: error.splits intro: stop go)
qed

lemma makedirs_le: "makedirs name fs = (r, fs') \<Longrightarrow> fs \<subseteq>\<^sub>m fs'"
proof (induction name fs arbitrary: r fs' rule: makedirs.induct)
  case (1 name fs)
  show ?case
  proof (cases "butlast name \<noteq> [] \<and> name \<noteq> [] \<and> \<not> path_exists fs (butlast name)")
    case True
    then have c: "butlast name \<noteq> []" "name \<noteq> []" "\<not> path_exists fs (butlast name)" by simp_all
    from c "1.prems" show ?thesis
    proof (cases rule: makedirs_rec_cases)
      case (stop e)
      then show ?thesis using "1.IH"[OF refl True] by simp
    next
      case (go r1 fs1)
      show ?thesis
        by (rule map_le_trans[OF "1.IH"[OF refl True go(1)] mkdir_le[OF go(2)]])
    qed
  next
    case False
    then have "mkdir name fs = (r, fs')"
      using "1.prems" makedirs_base[OF False] by simp
    then show ?thesis by (rule mkdir_le)
  qed
qed

lemma makedirs_made: "makedirs name fs = (Inr u, fs') \<Longrightarrow> fs' name = Some Dir"
proof (cases "butlast name \<noteq> [] \<and> name \<noteq> [] \<and> \<not> path_exists fs (butlast name)")
  case True
  assume a: "makedirs name fs = (Inr u, fs')"
  from True have c: "butlast name \<noteq> []" "name \<noteq> []" "\<not> path_exists fs (butlast name)" by simp_all
  from c a show ?thesis
    by (cases rule: makedirs_rec_cases) (auto dest: mkdir_made)
next
  case False
  assume a: "makedirs name fs = (Inr u, fs')"
  with makedirs_base[OF False] have "mkdir name fs = (Inr u, fs')"
    by simp
  then show ?thesis by (rule mkdir_made)
qed

lemma prefix_butlast: "prefix q (butlast name) \<Longrightarrow> prefix q name"
  using prefix_order.trans prefixeq_butlast by blast

lemma makedirs_frame:
  "makedirs name fs = (r, fs') \<Longrightarrow> \<not> prefix q name \<Longrightarrow> fs' q = fs q"
proof (induction name fs arbitrary: r fs' rule: makedirs.induct)
  case (1 name fs)
  have qn: "q \<noteq> name" using "1.prems"(2) by auto
  have qh: "\<not> prefix q (butlast name)" using "1.prems"(2) prefix_butlast by blast
  show ?case
  proof (cases "butlast name \<noteq> [] \<and> name \<noteq> [] \<and> \<not> path_exists fs (butlast name)")
    case True
    then have c: "butlast name \<noteq> []" "name \<noteq> []" "\<not> path_exists fs (butlast name)" by simp_all
    from c "1.prems"(1) show ?thesis
    proof (cases rule: makedirs_rec_cases)
      case (stop e)
      then show ?thesis using "1.IH"[OF refl True _ qh] by simp
    next
      case (go r1 fs1)
      then show ?thesis using "1.IH"[OF refl True go(1) qh] mkdir_frame[OF go(2) qn] by simp
    qed
  next
    case False
    then have "mkdir name fs = (r, fs')"
      using "1.prems"(1) makedirs_base[OF False] by simp
    then show ?thesis using qn by (rule mkdir_frame)
  qed
qed

lemma makedirs_error:
  "makedirs name fs = (Inl e, fs') \<Longrightarrow> fs name = None \<Longrightarrow>
   is_OSError e \<and> (\<exists>q. prefix q name \<and> fs' q \<noteq> Some Dir \<and> message e = path_str q)"
proof (induction name fs arbitrary: e fs' rule: makedirs.induct)
  case (1 name fs)
  show ?case
  proof (cases "butlast name \<noteq> [] \<and> name \<noteq> [] \<and> \<not> path_exists fs (butlast name)")
    case True
    then have c: "butlast name \<noteq> []" "name \<noteq> []" "\<not> path_exists fs (butlast name)" by simp_all
    from c "1.prems"(1) show ?thesis
    proof (cases rule: makedirs_rec_cases)
      case (stop e')
      then have "is_OSError e \<and> (\<exists>q. prefix q (butlast name) \<and> fs' q \<noteq> Some Dir \<and> message e = path_str q)"
        using "1.IH"[OF refl True, of e fs'] c(3) by (simp add: path_exists_def)
      then show ?thesis using prefix_butlast by blast
    next
      case (go r1 fs1)
      have "\<not> prefix name (butlast name)"
        using c(2) by (metis prefix_length_le length_butlast diff_less length_greater_0_conv
            less_one not_le)
      then have "fs1 name = None"
        using makedirs_frame[OF go(1)] "1.prems"(2) by simp
      then show ?thesis using mkdir_error[OF go(2)] by auto
    qed
  next
    case False
    then have "mkdir name fs = (Inl e, fs')"
      using "1.prems"(1) makedirs_base[OF False] by simp
    then show ?thesis using mkdir_error "1.prems"(2) by fastforce
  qed
qed

section \<open>Properties of \<^verbatim>\<open>create_missing_folders\<close>\<close>

lemma create_step:
  "create_missing_folders (folder # folders) fs =
     (case create_missing_folders [folder] fs of
        (Inl e, fs1) \<Rightarrow> (Inl e, fs1)
      | (Inr u, fs1) \<Rightarrow> create_missing_folders folders fs1)"
  by (auto split: prod.splits sum.splits)

lemma create_single_cases:
  assumes "create_missing_folders [folder] fs = (r, fs1)"
  obtains (made) "fs folder = None" "makedirs folder fs = (r, fs1)"
  | (refused) "fs folder = Some File" "fs1 = fs"
      "r = Inl (OSError (''Path '' @ path_str folder @ '' exists, but is no directory!''))"
  | (present) "fs folder = Some Dir" "fs1 = fs" "r = Inr ()"
proof (cases "fs folder")
  case None
  then have "makedirs folder fs = (r, fs1)"
    using assms by (auto simp: path_exists_def split: prod.splits sum.splits)
  with None show thesis by (rule made)
next
  case (Some n)
  then show thesis using assms
    by (cases n) (auto simp: path_exists_def path_isdir_def intro: refused present)
qed

lemma create_single_le: "create_missing_folders [folder] fs = (r, fs1) \<Longrightarrow> fs \<subseteq>\<^sub>m fs1"
  by (erule create_single_cases) (auto dest: makedirs_le)

lemma create_single_frame:
  "create_missing_folders [folder] fs = (r, fs1) \<Longrightarrow> \<not> prefix q folder \<Longrightarrow> fs1 q = fs q"
  by (erule create_single_cases) (auto dest: makedirs_frame)

lemma create_single_made:
  "create_missing_folders [folder] fs = (Inr u, fs1) \<Longrightarrow> fs1 folder = Some Dir"
  by (erule create_single_cases) (auto dest: makedirs_made)

lemma create_single_error:
  assumes "create_missing_folders [folder] fs = (Inl e, fs1)"
  shows "is_OSError e
         \<and> (\<exists>q. prefix q folder \<and> fs1 q \<noteq> Some Dir \<and> sublist (path_str q) (message e))"
  using assms
proof (cases rule: create_single_cases)
  case made
  then show ?thesis using makedirs_error[OF made(2) made(1)] by auto
next
  case refused
  have "sublist (path_str folder) (''Path '' @ path_str folder @ '' exists, but is no directory!'')"
    by (rule sublist_appendI)
  then show ?thesis using refused by auto
next
  case present
  then show ?thesis by simp
qed

lemma create_le: "create_missing_folders folders fs = (r, fs') \<Longrightarrow> fs \<subseteq>\<^sub>m fs'"
proof (induction folders arbitrary: fs)
  case Nil
  then show ?case by simp
next
  case (Cons folder folders)
  obtain r1 fs1 where s: "create_missing_folders [folder] fs = (r1, fs1)"
    by (cases "create_missing_folders [folder] fs")
  show ?case
  proof (cases r1)
    case (Inl e)
    then show ?thesis using Cons.prems s create_single_le[OF s]
      by (subst (asm) create_step) simp
  next
    case (Inr u)
    then have "create_missing_folders folders fs1 = (r, fs')"
      using Cons.prems s by (subst (asm) create_step) simp
    then have "fs1 \<subseteq>\<^sub>m fs'" by (rule Cons.IH)
    with create_single_le[OF s] show ?thesis by (rule map_le_trans)
  qed
qed

lemma map_le_Some: "fs \<subseteq>\<^sub>m fs' \<Longrightarrow> fs p = Some n \<Longrightarrow> fs' p = Some n"
  by (metis domI map_le_def)

lemma create_all_dirs:
  "\<forall>p \<in> set folders. fs p = Some Dir \<Longrightarrow> create_missing_folders folders fs = (Inr (), fs)"
  by (induction folders) (simp_all add: path_exists_def path_isdir_def)

lemma create_success_dirs:
  "create_missing_folders folders fs = (Inr u, fs') \<Longrightarrow> \<forall>p \<in> set folders. fs' p = Some Dir"
proof (induction folders arbitrary: fs)
  case Nil
  then show ?case by simp
next
  case (Cons folder folders)
  obtain r1 fs1 where s: "create_missing_folders [folder] fs = (r1, fs1)"
    by (cases "create_missing_folders [folder] fs")
  show ?case
  proof (cases r1)
    case (Inl e)
    then show ?thesis using Cons.prems s by (subst (asm) create_step) simp
  next
    case (Inr v)
    then have rest: "create_missing_folders folders fs1 = (Inr u, fs')"
      using Cons.prems s by (subst (asm) create_step) simp
    have "fs1 folder = Some Dir" using s unfolding Inr by (rule create_single_made)
    then have "fs' folder = Some Dir" by (rule map_le_Some[OF create_le[OF rest]])
    then show ?thesis using Cons.IH[OF rest] by simp
  qed
qed

lemma create_file_fails:
  "folder \<in> set folders \<Longrightarrow> fs folder = Some File \<Longrightarrow>
   \<exists>e fs'. create_missing_folders folders fs = (Inl e, fs')"
proof (induction folders arbitrary: fs)
  case Nil
  then show ?case by simp
next
  case (Cons p ps)
  obtain r1 fs1 where s: "create_missing_folders [p] fs = (r1, fs1)"
    by (cases "create_missing_folders [p] fs")
  show ?case
  proof (cases r1)
    case (Inl e)
    then show ?thesis using s by (subst create_step) simp
  next
    case (Inr u)
    have "fs1 folder = Some File"
      using map_le_Some[of fs fs1 folder File] create_single_le[OF s] Cons.prems(2) by simp
    moreover have "fs1 p = Some Dir" using s unfolding Inr by (rule create_single_made)
    ultimately have "folder \<noteq> p" by auto
    then have "folder \<in> set ps" using Cons.prems(1) by simp
    then obtain e fs' where "create_missing_folders ps fs1 = (Inl e, fs')"
      using Cons.IH \<open>fs1 folder = Some File\<close> by blast
    then show ?thesis using s Inr by (subst create_step) simp
  qed
qed

lemma create_error:
  "create_missing_folders folders fs = (Inl e, fs') \<Longrightarrow>
   is_OSError e
   \<and> (\<exists>t \<in> set folders. \<exists>q. prefix q t \<and> fs' q \<noteq> Some Dir \<and> sublist (path_str q) (message e))"
proof (induction folders arbitrary: fs)
  case Nil
  then show ?case by simp
next
  case (Cons p ps)
  obtain r1 fs1 where s: "create_missing_folders [p] fs = (r1, fs1)"
    by (cases "create_missing_folders [p] fs")
  show ?case
  proof (cases r1)
    case (Inl e1)
    then have "e1 = e" "fs1 = fs'"
      using Cons.prems s by (subst (asm) create_step, simp)+
    then show ?thesis using create_single_error[of p fs e fs'] s Inl by simp
  next
    case (Inr u)
    then have "create_missing_folders ps fs1 = (Inl e, fs')"
      using Cons.prems s by (subst (asm) create_step) simp
    then show ?thesis using Cons.IH by fastforce
  qed
qed

lemma create_append:
  "create_missing_folders (xs @ ys) fs =
     (case create_missing_folders xs fs of
        (Inl e, fs1) \<Rightarrow> (Inl e, fs1)
      | (Inr u, fs1) \<Rightarrow> create_missing_folders ys fs1)"
proof (induction xs arbitrary: fs)
  case Nil
  show ?case by simp
next
  case (Cons x xs)
  obtain r1 fs1 where s: "create_missing_folders [x] fs = (r1, fs1)"
    by (cases "create_missing_folders [x] fs")
  have "create_missing_folders ((x # xs) @ ys) fs =
          (case (r1, fs1) of (Inl e, f) \<Rightarrow> (Inl e, f)
           | (Inr u, f) \<Rightarrow> create_missing_folders (xs @ ys) f)"
    unfolding append_Cons s[symmetric] by (rule create_step)
  moreover have "create_missing_folders (x # xs) fs =
          (case (r1, fs1) of (Inl e, f) \<Rightarrow> (Inl e, f)
           | (Inr u, f) \<Rightarrow> create_missing_folders xs f)"
    unfolding s[symmetric] by (rule create_step)
  ultimately show ?case by (cases r1) (simp_all add: Cons.IH)
qed

text \<open>
  Claim C3. When a path of the list is a file that is not a directory, the call raises an
  exception of the \<open>OSError\<close> family whose message names a path that is not a directory
  when the call ends and that is one of the listed paths or a parent of one; when the
  paths listed before the file are ensured without an exception, it is the \<open>OSError\<close> of
  \<^verbatim>\<open>create_missing_folders\<close> itself, naming the file. No file that is not a directory is
  replaced: each is still there when the call ends.
\<close>

theorem create_missing_folders_refuses_file:
  assumes "folder \<in> set folders" and "fs folder = Some File"
  shows "\<exists>e fs'. create_missing_folders folders fs = (Inl e, fs')
           \<and> is_OSError e
           \<and> (\<exists>t \<in> set folders. \<exists>q.
                 prefix q t \<and> fs' q \<noteq> Some Dir \<and> sublist (path_str q) (message e))
           \<and> (\<forall>fs1. create_missing_folders (takeWhile (\<lambda>p. p \<noteq> folder) folders) fs = (Inr (), fs1)
                  \<longrightarrow> e = OSError (''Path '' @ path_str folder @ '' exists, but is no directory!'')
                      \<and> fs' = fs1)
           \<and> (\<forall>p. fs p = Some File \<longrightarrow> fs' p = Some File)"
proof -
  obtain e fs' where r: "create_missing_folders folders fs = (Inl e, fs')"
    using create_file_fails[of folder folders fs] assms by blast
  have files: "\<forall>p. fs p = Some File \<longrightarrow> fs' p = Some File"
    using map_le_Some[OF create_le[OF r]] by blast
  have first: "e = OSError (''Path '' @ path_str folder @ '' exists, but is no directory!'') \<and> fs' = fs1"
    if b: "create_missing_folders (takeWhile (\<lambda>p. p \<noteq> folder) folders) fs = (Inr (), fs1)" for fs1
  proof -
    have "fs1 folder = Some File"
      using map_le_Some[of fs fs1 folder File] create_le[OF b] assms(2) by simp
    then have "create_missing_folders (folder # tl (dropWhile (\<lambda>p. p \<noteq> folder) folders)) fs1
             = (Inl (OSError (''Path '' @ path_str folder @ '' exists, but is no directory!'')), fs1)"
      by (simp add: path_exists_def path_isdir_def)
    moreover have "dropWhile (\<lambda>p. p \<noteq> folder) folders
             = folder # tl (dropWhile (\<lambda>p. p \<noteq> folder) folders)"
      using assms(1) by (metis (mono_tags, lifting) dropWhile_eq_Nil_conv hd_dropWhile list.collapse)
    ultimately have "create_missing_folders (dropWhile (\<lambda>p. p \<noteq> folder) folders) fs1
             = (Inl (OSError (''Path '' @ path_str folder @ '' exists, but is no directory!'')), fs1)"
      by simp
    then have "create_missing_folders
                 (takeWhile (\<lambda>p. p \<noteq> folder) folders @ dropWhile (\<lambda>p. p \<noteq> folder) folders) fs
             = (Inl (OSError (''Path '' @ path_str folder @ '' exists, but is no directory!'')), fs1)"
      by (subst create_append) (simp add: b)
    then show ?thesis using r by simp
  qed
  show ?thesis
    using r create_error[OF r] files first by blast
qed

text \<open>
  The theorem at the list \<^verbatim>\<open>["existing_file.txt"]\<close>, that path being a regular file.
\<close>

theorem create_missing_folders_refuses_file_witness:
  "[''existing_file.txt''] \<in> set [[''existing_file.txt'']]
   \<and> (Map.empty([] \<mapsto> Dir, [''existing_file.txt''] \<mapsto> File)) [''existing_file.txt''] = Some File
   \<and> create_missing_folders [[''existing_file.txt'']]
        (Map.empty([] \<mapsto> Dir, [''existing_file.txt''] \<mapsto> File))
       = (Inl (OSError ''Path existing_file.txt exists, but is no directory!''),
          Map.empty([] \<mapsto> Dir, [''existing_file.txt''] \<mapsto> File))"
  using create_missing_folders_refuses_file[of "[''existing_file.txt'']" "[[''existing_file.txt'']]"
      "Map.empty([] \<mapsto> Dir, [''existing_file.txt''] \<mapsto> File)"]
  by (simp add: path_exists_def path_isdir_def)

text \<open>
  Claim C5. After a call that succeeded, a second call with the same list on the file
  system the first one left succeeds and leaves it unchanged.
\<close>

theorem create_missing_folders_idempotent:
  assumes "create_missing_folders folders fs = (Inr (), fs')"
  shows "create_missing_folders folders fs' = (Inr (), fs')"
  using create_success_dirs[OF assms] by (rule create_all_dirs)


text \<open>
  The theorem at the list \<^verbatim>\<open>["a/b/c"]\<close> on a file system with the working directory only:
  the first call makes \<^verbatim>\<open>a\<close>, \<^verbatim>\<open>a/b\<close> and \<^verbatim>\<open>a/b/c\<close>.
\<close>

theorem create_missing_folders_idempotent_witness:
  "create_missing_folders [[''a'', ''b'', ''c'']] (Map.empty([] \<mapsto> Dir))
     = (Inr (), Map.empty([] \<mapsto> Dir, [''a''] \<mapsto> Dir, [''a'', ''b''] \<mapsto> Dir,
                   [''a'', ''b'', ''c''] \<mapsto> Dir))
   \<and> create_missing_folders [[''a'', ''b'', ''c'']]
         (Map.empty([] \<mapsto> Dir, [''a''] \<mapsto> Dir, [''a'', ''b''] \<mapsto> Dir,
                   [''a'', ''b'', ''c''] \<mapsto> Dir))
     = (Inr (), Map.empty([] \<mapsto> Dir, [''a''] \<mapsto> Dir, [''a'', ''b''] \<mapsto> Dir,
                   [''a'', ''b'', ''c''] \<mapsto> Dir))"
proof -
  have h: "create_missing_folders [[''a'', ''b'', ''c'']] (Map.empty([] \<mapsto> Dir))
     = (Inr (), Map.empty([] \<mapsto> Dir, [''a''] \<mapsto> Dir, [''a'', ''b''] \<mapsto> Dir,
                   [''a'', ''b'', ''c''] \<mapsto> Dir))"
    by (simp add: path_exists_def path_isdir_def makedirs_unfold mkdir_def)
  show ?thesis using h create_missing_folders_idempotent[OF h] by simp
qed

text \<open>
  Claim C10. A call that raises stopped at a position \<open>i\<close> of the list: the paths before
  \<open>i\<close> were ensured in order without an exception, the exception and the final file system
  are those of the step for the path at \<open>i\<close>, every path listed before \<open>i\<close> is a directory
  in the final file system (nothing is rolled back), and the file system changed only at
  the paths listed up to \<open>i\<close> and their parents: no path after \<open>i\<close> was touched.
\<close>

theorem create_missing_folders_stops:
  assumes "create_missing_folders folders fs = (Inl e, fs')"
  shows "\<exists>i fs\<^sub>i. i < length folders
           \<and> create_missing_folders (take i folders) fs = (Inr (), fs\<^sub>i)
           \<and> create_missing_folders [folders ! i] fs\<^sub>i = (Inl e, fs')
           \<and> (\<forall>j<i. fs' (folders ! j) = Some Dir)
           \<and> (\<forall>q. (\<forall>j\<le>i. \<not> prefix q (folders ! j)) \<longrightarrow> fs' q = fs q)"
  using assms
proof (induction folders arbitrary: fs)
  case Nil
  then show ?case by simp
next
  case (Cons p ps)
  obtain r1 fs1 where s: "create_missing_folders [p] fs = (r1, fs1)"
    by (cases "create_missing_folders [p] fs")
  show ?case
  proof (cases r1)
    case (Inl e1)
    then have eq: "e1 = e" "fs1 = fs'"
      using Cons.prems s by (subst (asm) create_step, simp)+
    have "create_missing_folders [(p # ps) ! 0] fs = (Inl e, fs')"
      using s Inl eq by simp
    moreover have "\<forall>q. (\<forall>j\<le>0. \<not> prefix q ((p # ps) ! j)) \<longrightarrow> fs' q = fs q"
      using create_single_frame[OF s] eq by simp
    ultimately show ?thesis
      by (intro exI[of _ 0] exI[of _ fs]) simp
  next
    case (Inr u)
    then have rest: "create_missing_folders ps fs1 = (Inl e, fs')"
      using Cons.prems s by (subst (asm) create_step) simp
    from Cons.IH[OF rest] obtain i fsi where i: "i < length ps"
      and a: "create_missing_folders (take i ps) fs1 = (Inr (), fsi)"
      and b: "create_missing_folders [ps ! i] fsi = (Inl e, fs')"
      and c: "\<forall>j<i. fs' (ps ! j) = Some Dir"
      and d: "\<forall>q. (\<forall>j\<le>i. \<not> prefix q (ps ! j)) \<longrightarrow> fs' q = fs1 q"
      by blast
    have a': "create_missing_folders (take (Suc i) (p # ps)) fs = (Inr (), fsi)"
      using a s Inr by (simp only: take_Suc_Cons) (subst create_step, simp)
    have "fs1 p = Some Dir" using s unfolding Inr by (rule create_single_made)
    then have p: "fs' p = Some Dir" by (rule map_le_Some[OF create_le[OF rest]])
    have c': "\<forall>j<Suc i. fs' ((p # ps) ! j) = Some Dir"
      using c p by (auto simp: less_Suc_eq_0_disj)
    have d': "\<forall>q. (\<forall>j\<le>Suc i. \<not> prefix q ((p # ps) ! j)) \<longrightarrow> fs' q = fs q"
    proof (intro allI impI)
      fix q
      assume h: "\<forall>j\<le>Suc i. \<not> prefix q ((p # ps) ! j)"
      then have "\<not> prefix q p" by (metis le0 nth_Cons_0)
      then have "fs1 q = fs q" using create_single_frame[OF s] by simp
      moreover have "\<forall>j\<le>i. \<not> prefix q (ps ! j)"
        using h by (metis Suc_le_mono nth_Cons_Suc)
      ultimately show "fs' q = fs q" using d by simp
    qed
    show ?thesis
      using i a' b c' d' by (intro exI[of _ "Suc i"] exI[of _ fsi]) simp
  qed
qed


text \<open>
  The theorem at the list \<^verbatim>\<open>["a", "f", "b"]\<close>, where \<^verbatim>\<open>f\<close> is a regular file: \<^verbatim>\<open>a\<close> is made,
  the call raises at \<^verbatim>\<open>f\<close>, and \<^verbatim>\<open>b\<close> is not made.
\<close>

theorem create_missing_folders_stops_witness:
  "create_missing_folders [[''a''], [''f''], [''b'']] (Map.empty([] \<mapsto> Dir, [''f''] \<mapsto> File))
     = (Inl (OSError ''Path f exists, but is no directory!''),
        Map.empty([] \<mapsto> Dir, [''f''] \<mapsto> File, [''a''] \<mapsto> Dir))
   \<and> (\<exists>i fs\<^sub>i. i < length [[''a''], [''f''], [''b'']]
         \<and> create_missing_folders (take i [[''a''], [''f''], [''b'']])
               (Map.empty([] \<mapsto> Dir, [''f''] \<mapsto> File)) = (Inr (), fs\<^sub>i)
         \<and> create_missing_folders [[[''a''], [''f''], [''b'']] ! i] fs\<^sub>i
             = (Inl (OSError ''Path f exists, but is no directory!''),
                Map.empty([] \<mapsto> Dir, [''f''] \<mapsto> File, [''a''] \<mapsto> Dir))
         \<and> (\<forall>j<i. (Map.empty([] \<mapsto> Dir, [''f''] \<mapsto> File, [''a''] \<mapsto> Dir))
                     ([[''a''], [''f''], [''b'']] ! j) = Some Dir)
         \<and> (\<forall>q. (\<forall>j\<le>i. \<not> prefix q ([[''a''], [''f''], [''b'']] ! j)) \<longrightarrow>
                (Map.empty([] \<mapsto> Dir, [''f''] \<mapsto> File, [''a''] \<mapsto> Dir)) q
                = (Map.empty([] \<mapsto> Dir, [''f''] \<mapsto> File)) q))"
proof -
  have h: "create_missing_folders [[''a''], [''f''], [''b'']] (Map.empty([] \<mapsto> Dir, [''f''] \<mapsto> File))
     = (Inl (OSError ''Path f exists, but is no directory!''),
        Map.empty([] \<mapsto> Dir, [''f''] \<mapsto> File, [''a''] \<mapsto> Dir))"
    by (simp add: path_exists_def path_isdir_def makedirs_unfold mkdir_def)
  show ?thesis using h create_missing_folders_stops[OF h] by blast
qed

section \<open>Properties of \<^verbatim>\<open>general_init\<close>\<close>

lemma basicConfig_handlers: "root_handlers (basicConfig fmt datefmt lvl st) \<noteq> []"
  by (simp add: basicConfig_def Let_def split: option.splits)

lemma basicConfig_level:
  "root_level (basicConfig fmt datefmt (Some l) st) = (if root_handlers st = [] then l else root_level st)"
  by (simp add: basicConfig_def Let_def)

lemma logging_info_configured:
  assumes "root_handlers st \<noteq> []"
  shows "root_handlers (logging_info msg st) \<noteq> []"
    and "root_level (logging_info msg st) = root_level st"
  using assms by (simp_all add: logging_info_def Let_def)

lemma set_printoptions_level: "root_level (set_printoptions f st) = root_level st"
  by (simp add: set_printoptions_def)

text \<open>
  Claim C8, as the code has it. When the root logger has no handler yet, \<^verbatim>\<open>general_init\<close>
  sets its level to \<open>DEBUG\<close> for a true flag and to \<open>INFO\<close> for a false one; when it
  already has a handler, the level stays as it was. The function has no exception to
  raise: it is total on every state.
\<close>

theorem general_init_level:
  "root_level (general_init debug st) =
     (if root_handlers st = [] then (if debug then DEBUG else INFO) else root_level st)"
  unfolding general_init_def Let_def
  by (simp only: set_printoptions_level logging_info_configured basicConfig_handlers
      basicConfig_level not_False_eq_True)

text \<open>
  The theorem in a process that has not configured logging: the root logger has no handler
  and its level is \<open>WARNING\<close>.
\<close>

theorem general_init_level_witness:
  "root_level (general_init True
      \<lparr>root_handlers = [], root_level = WARNING, log_records = [], float_kind = None\<rparr>) = DEBUG
   \<and> root_level (general_init False
      \<lparr>root_handlers = [], root_level = WARNING, log_records = [], float_kind = None\<rparr>) = INFO"
  using general_init_level[of True
      "\<lparr>root_handlers = [], root_level = WARNING, log_records = [], float_kind = None\<rparr>"]
    general_init_level[of False
      "\<lparr>root_handlers = [], root_level = WARNING, log_records = [], float_kind = None\<rparr>"]
  by simp

text \<open>
  Claim C8 as stated fails in a process whose root logger was configured before, here
  with the level \<open>WARNING\<close>: after \<^verbatim>\<open>general_init(debug=True)\<close> the level is still
  \<open>WARNING\<close>.
\<close>

theorem general_init_level_counterexample:
  "root_level (general_init True
      \<lparr>root_handlers = [(''%(message)s'', None)], root_level = WARNING, log_records = [],
       float_kind = None\<rparr>) = WARNING
   \<and> WARNING \<noteq> DEBUG"
proof -
  let ?st = "\<lparr>root_handlers = [(''%(message)s'', None)], root_level = WARNING,
             log_records = [], float_kind = None\<rparr>"
  have h: "root_handlers ?st \<noteq> []" by simp
  have "root_level (general_init True ?st) = root_level ?st"
    unfolding general_init_def Let_def
    by (simp only: set_printoptions_level logging_info_configured basicConfig_handlers
        basicConfig_level h if_False not_False_eq_True)
  then show ?thesis by (simp add: WARNING_def DEBUG_def)
qed

end
